theory Spec2Isabelle
  imports Main
begin

section \<open>Python values and errors\<close>

text \<open>
  The exceptions the three scripts can meet, as values. A function that may raise
  returns \<open>error + 'a\<close>, with \<open>Inl\<close> for the exception.
\<close>

datatype error =
    KeyError string
  | IndexError
  | ValueError string
  | FileNotFoundError string
  | OSError string
  | DecodeError string
  | LibraryError

text \<open>
  A value of a decoded JSON billing item: a JSON string, a JSON integer, or any other
  JSON value (a float, a boolean, null, an array, an object), which is carried as the
  text Python's \<open>str()\<close> gives for it.
\<close>

datatype jval = JStr string | JInt int | JOther string

fun digit_char :: "nat \<Rightarrow> char" where
  "digit_char n = char_of (48 + n)"

fun str_nat :: "nat \<Rightarrow> string" where
  "str_nat n = (if n < 10 then [digit_char n] else str_nat (n div 10) @ [digit_char (n mod 10)])"

declare str_nat.simps [simp del]

definition str_int :: "int \<Rightarrow> string" where
  "str_int i = (if i < 0 then CHR ''-'' # str_nat (nat (- i)) else str_nat (nat i))"

fun py_str :: "jval \<Rightarrow> string" where
  "py_str (JStr s) = s"
| "py_str (JInt i) = str_int i"
| "py_str (JOther s) = s"

section \<open>claimgenerator.py: billing lines of a diagnosis\<close>

type_synonym item = "string \<rightharpoonup> jval"
type_synonym billing_entry = "string \<rightharpoonup> item list"
type_synonym billing_table = "string \<rightharpoonup> billing_entry"

definition getitem :: "('v) list \<Rightarrow> nat \<Rightarrow> error + 'v" where
  "getitem xs i = (if i < length xs then Inr (xs ! i) else Inl IndexError)"

definition dict_get :: "('k \<rightharpoonup> 'v) \<Rightarrow> 'k \<Rightarrow> 'v \<Rightarrow> 'v" where
  "dict_get d k dflt = (case d k of None \<Rightarrow> dflt | Some v \<Rightarrow> v)"

definition dict_index :: "(string \<rightharpoonup> 'v) \<Rightarrow> string \<Rightarrow> error + 'v" where
  "dict_index d k = (case d k of None \<Rightarrow> Inl (KeyError k) | Some v \<Rightarrow> Inr v)"

definition fallback_items :: "string list list" where
  "fallback_items =
     [[''Consultation'', ''General Consultation'', ''1'', ''1000'', ''1000''],
      [''Lab Test'', ''General Lab Test'', ''1'', ''500'', ''500'']]"

text \<open>
  \<open>bind_err\<close> sequences two steps of a \<open>try\<close> body: the second runs only when the
  first did not raise.
\<close>

text \<open>
  One row of the list comprehension of \<open>get_billing_items_for_diagnosis\<close>: the five
  subscripts are evaluated left to right, and the first missing key raises.
  \<open>Item\<close> and \<open>Description\<close> are taken as they are and the other three go through
  \<open>str()\<close>; the row keeps the text of each cell, which for a JSON string is the string.
\<close>

definition bind_err :: "error + 'a \<Rightarrow> ('a \<Rightarrow> error + 'b) \<Rightarrow> error + 'b" where
  "bind_err m f = (case m of Inl e \<Rightarrow> Inl e | Inr x \<Rightarrow> f x)"

definition item_row :: "item \<Rightarrow> error + string list" where
  "item_row it =
     bind_err (dict_index it ''Item'') (\<lambda>i.
     bind_err (dict_index it ''Description'') (\<lambda>d.
     bind_err (dict_index it ''Quantity'') (\<lambda>q.
     bind_err (dict_index it ''Unit Price'') (\<lambda>u.
     bind_err (dict_index it ''Total'') (\<lambda>t.
       Inr [py_str i, py_str d, py_str q, py_str u, py_str t])))))"

fun item_rows :: "item list \<Rightarrow> error + string list list" where
  "item_rows [] = Inr []"
| "item_rows (it # its) =
     bind_err (item_row it) (\<lambda>r.
     bind_err (item_rows its) (\<lambda>rs. Inr (r # rs)))"

text \<open>
  The first line of the function:
  \<^verbatim>\<open>items = billing_items_data.get(diagnosis, {}).get("billing_items", [])\<close>.
\<close>

definition diagnosis_items :: "string \<Rightarrow> billing_table \<Rightarrow> item list" where
  "diagnosis_items diagnosis billing_items_data =
     dict_get (dict_get billing_items_data diagnosis Map.empty) ''billing_items'' []"

definition get_billing_items_for_diagnosis ::
    "string \<Rightarrow> billing_table \<Rightarrow> error + string list list" where
  "get_billing_items_for_diagnosis diagnosis billing_items_data =
     (let items = diagnosis_items diagnosis billing_items_data
      in if items = [] then Inr fallback_items else item_rows items)"

text \<open>An item that carries the five keys the list comprehension subscripts.\<close>

definition has_fields :: "item \<Rightarrow> bool" where
  "has_fields it =
     list_all (\<lambda>k. it k \<noteq> None)
       [''Item'', ''Description'', ''Quantity'', ''Unit Price'', ''Total'']"

section \<open>claimgenerator.py: files, log and libraries\<close>

text \<open>
  What the script draws on a reportlab canvas. A colour is a string taken from the design
  record or the constant \<open>colors.black\<close>. The table is kept as one operation: its data,
  and the two colours and the font its style uses.
\<close>

datatype color = ColorStr string | ColorBlack

datatype canvas_op =
    DrawImage string nat nat nat nat
  | SetFont string nat
  | SetFillColor color
  | DrawString nat nat string
  | DrawLine nat nat nat nat
  | DrawTable "string list list" string string string

text \<open>
  A file is known by what the library that reads it decodes: an image PIL can open and
  verify (with the text drawn on it), a document saved by a canvas, the JSON object of
  the design store, the JSON object of specialties, a CSV table (header row and data
  rows), or bytes that none of the readers decodes.
\<close>

datatype fcontent =
    ImageFile string
  | Pdf "canvas_op list"
  | DesignJson "string \<rightharpoonup> (string \<rightharpoonup> string)"
  | SpecialtiesJson "(string \<times> string list) list"
  | Csv "string list" "string list list"
  | OtherBytes

text \<open>The lines the scripts log, by message; the level is the one of the source.\<close>

datatype event =
    LogoGenerated string string
  | LogoGenerationError string error
  | LogoVerifyError string error
  | ClaimGenerated string
  | ClaimError string error
  | LoadDataError error
  | BatchGenerated nat nat
  | FatalError error
  | NoHospitalDetails
  | HospitalsSaved
  | CsvSaveError error
  | SavingDoctors nat
  | DoctorsSaved string

record world =
  files :: "string \<rightharpoonup> fcontent"
  log :: "event list"

text \<open>
  What the model does not compute is a parameter: Python's \<open>float()\<close> on a string
  (\<open>None\<close> when it raises \<open>ValueError\<close>), \<open>sum()\<close> of a list of floats, the format
  \<open>.2f\<close>, whether a canvas operation completes after the operations drawn so far,
  whether PIL draws a text, and whether a path can be opened for writing.
\<close>

record 'f pyenv =
  py_float :: "string \<Rightarrow> 'f option"
  py_sum :: "'f list \<Rightarrow> 'f"
  py_fmt2 :: "'f \<Rightarrow> string"
  canvas_ok :: "canvas_op list \<Rightarrow> canvas_op \<Rightarrow> bool"
  pil_draws :: "string \<Rightarrow> bool"
  can_write :: "string \<Rightarrow> bool"

text \<open>The values one call draws from Faker and the clock.\<close>

record draws =
  patient_name :: string
  patient_id :: nat
  today :: string

definition logos_dir :: string where
  "logos_dir = ''logos''"

definition output_dir :: string where
  "output_dir = ''output''"

definition design_file :: string where
  "design_file = ''design.json''"

text \<open>\<open>os.path.join\<close> of two components, on POSIX.\<close>

definition os_path_join :: "string \<Rightarrow> string \<Rightarrow> string" where
  "os_path_join a b =
     (if b \<noteq> [] \<and> hd b = CHR ''/'' then b
      else if a = [] \<or> last a = CHR ''/'' then a @ b
      else a @ ''/'' @ b)"

definition log_event :: "event \<Rightarrow> world \<Rightarrow> world" where
  "log_event ev w = w\<lparr>log := log w @ [ev]\<rparr>"

definition write_file :: "string \<Rightarrow> fcontent \<Rightarrow> world \<Rightarrow> world" where
  "write_file path content w = w\<lparr>files := (files w)(path \<mapsto> content)\<rparr>"

section \<open>claimgenerator.py: the logo of a provider\<close>

text \<open>
  \<open>generate_logo\<close>: the text is the first 20 characters of the name; every failure
  inside is caught, logged and answered with \<open>False\<close>.
\<close>

definition generate_logo :: "'f pyenv \<Rightarrow> string \<Rightarrow> string \<Rightarrow> world \<Rightarrow> bool \<times> world" where
  "generate_logo env provider_name logo_file w =
     (let text = take 20 provider_name in
      if \<not> pil_draws env text then
        (False, log_event (LogoGenerationError provider_name LibraryError) w)
      else if \<not> can_write env logo_file then
        (False, log_event (LogoGenerationError provider_name (OSError logo_file)) w)
      else
        (True, log_event (LogoGenerated provider_name logo_file)
                 (write_file logo_file (ImageFile text) w)))"

text \<open>
  \<open>verify_logo\<close>: \<open>False\<close> for a missing file; for a file that exists, \<open>True\<close> when
  PIL opens and verifies it, and \<open>False\<close> with an error logged when that raises.
\<close>

definition verify_logo :: "string \<Rightarrow> world \<Rightarrow> bool \<times> world" where
  "verify_logo logo_file w =
     (case files w logo_file of
        None \<Rightarrow> (False, w)
      | Some (ImageFile t) \<Rightarrow> (True, w)
      | Some _ \<Rightarrow> (False, log_event (LogoVerifyError logo_file (DecodeError logo_file)) w))"

section \<open>claimgenerator.py: rendering one claim\<close>

definition logo_path :: "string \<Rightarrow> string" where
  "logo_path name = os_path_join logos_dir (''logo_'' @ name @ ''.png'')"

text \<open>
  The statement
  \<^verbatim>\<open>if not os.path.exists(logo_file) or not verify_logo(logo_file): generate_logo(...)\<close>:
  \<open>verify_logo\<close> runs only for a file that exists, and the answer of \<open>generate_logo\<close>
  is dropped.
\<close>

definition ensure_logo :: "'f pyenv \<Rightarrow> string \<Rightarrow> string \<Rightarrow> world \<Rightarrow> world" where
  "ensure_logo env name logo_file w =
     (if files w logo_file = None then snd (generate_logo env name logo_file w)
      else (case verify_logo logo_file w of
              (True, w1) \<Rightarrow> w1
            | (False, w1) \<Rightarrow> snd (generate_logo env name logo_file w1)))"

text \<open>One canvas call: it raises when the library does, and else the canvas grows.\<close>

definition draw :: "'f pyenv \<Rightarrow> canvas_op \<Rightarrow> canvas_op list \<Rightarrow> error + canvas_op list" where
  "draw env op c = (if canvas_ok env c op then Inr (c @ [op]) else Inl LibraryError)"

text \<open>
  A run of canvas calls in source order. A step is the call with its arguments
  evaluated, or the exception their evaluation raises (a missing key of the clinic).
\<close>

fun run_ops :: "'f pyenv \<Rightarrow> (error + canvas_op) list \<Rightarrow> canvas_op list \<Rightarrow> error + canvas_op list" where
  "run_ops env [] c = Inr c"
| "run_ops env (Inl e # steps) c = Inl e"
| "run_ops env (Inr op # steps) c = bind_err (draw env op c) (run_ops env steps)"

definition draw_field ::
    "nat \<Rightarrow> nat \<Rightarrow> (string \<Rightarrow> string) \<Rightarrow> (string \<rightharpoonup> string) \<Rightarrow> string \<Rightarrow> error + canvas_op" where
  "draw_field x y fmt clinic key =
     bind_err (dict_index clinic key) (\<lambda>v. Inr (DrawString x y (fmt v)))"

definition table_header :: "string list" where
  "table_header = [''Item'', ''Description'', ''Quantity'', ''Unit Price (Rs)'', ''Total (Rs)'']"

text \<open>The three subscripts of the design record, in source order.\<close>

definition design_fields :: "(string \<rightharpoonup> string) \<Rightarrow> error + string \<times> string \<times> string" where
  "design_fields design =
     bind_err (dict_index design ''primary_color'') (\<lambda>primary_color.
     bind_err (dict_index design ''secondary_color'') (\<lambda>secondary_color.
     bind_err (dict_index design ''font'') (\<lambda>font_name.
       Inr (primary_color, secondary_color, font_name))))"

text \<open>From the clinic information to the billing table (after the logo).\<close>

definition header_ops ::
    "draws \<Rightarrow> (string \<rightharpoonup> string) \<Rightarrow> string \<times> string \<Rightarrow> string \<Rightarrow>
     string \<Rightarrow> string \<Rightarrow> string \<Rightarrow> string list list \<Rightarrow> (error + canvas_op) list" where
  "header_ops dr clinic doctor diagnosis primary_color secondary_color font_name billing_items =
     [Inr (SetFont font_name 16),
      Inr (SetFillColor (ColorStr primary_color)),
      draw_field 170 730 (\<lambda>v. v) clinic ''name'',
      Inr (SetFont font_name 12),
      Inr (SetFillColor ColorBlack),
      draw_field 170 710 (\<lambda>v. v) clinic ''address'',
      draw_field 170 690 (\<lambda>v. ''Phone: '' @ v) clinic ''telephone'',
      draw_field 170 670 (\<lambda>v. ''Email: '' @ v) clinic ''email'',
      Inr (SetFont font_name 14),
      Inr (SetFillColor (ColorStr primary_color)),
      Inr (DrawString 50 640 ''Medical Bill Receipt''),
      Inr (DrawLine 50 635 550 635),
      Inr (SetFont font_name 12),
      Inr (DrawString 50 610 (''Patient Name: '' @ patient_name dr)),
      Inr (DrawString 50 590 (''Patient ID: '' @ str_nat (patient_id dr))),
      Inr (DrawString 50 570 (''Date of Service: '' @ today dr)),
      Inr (DrawString 50 540 (''Doctor: '' @ fst doctor @ '' ('' @ snd doctor @ '')'')),
      Inr (DrawString 50 520 (''Diagnosis: '' @ diagnosis)),
      Inr (DrawTable (table_header # billing_items) primary_color secondary_color font_name)]"

text \<open>
  \<^verbatim>\<open>total_amount = sum([float(item[4]) for item in billing_items])\<close>: the fifth field
  of each line in turn; a line with fewer than five fields raises \<open>IndexError\<close>, and a
  field \<open>float()\<close> cannot read raises \<open>ValueError\<close>.
\<close>

definition float_of :: "'f pyenv \<Rightarrow> string \<Rightarrow> error + 'f" where
  "float_of env s = (case py_float env s of None \<Rightarrow> Inl (ValueError s) | Some x \<Rightarrow> Inr x)"

fun parse_totals :: "'f pyenv \<Rightarrow> string list list \<Rightarrow> error + 'f list" where
  "parse_totals env [] = Inr []"
| "parse_totals env (item # items) =
     bind_err (getitem item 4) (\<lambda>s.
     bind_err (float_of env s) (\<lambda>x.
     bind_err (parse_totals env items) (\<lambda>xs. Inr (x # xs))))"

definition total_amount :: "'f pyenv \<Rightarrow> string list list \<Rightarrow> error + 'f" where
  "total_amount env billing_items =
     bind_err (parse_totals env billing_items) (\<lambda>xs. Inr (py_sum env xs))"

text \<open>From the total to the footer.\<close>

definition contact_line :: "(string \<rightharpoonup> string) \<Rightarrow> error + canvas_op" where
  "contact_line clinic =
     bind_err (dict_index clinic ''telephone'') (\<lambda>telephone.
     bind_err (dict_index clinic ''email'') (\<lambda>email.
       Inr (DrawString 50 35
         (''For any queries, please contact us at '' @ telephone @ '' or '' @ email))))"

definition footer_ops ::
    "'f pyenv \<Rightarrow> (string \<rightharpoonup> string) \<Rightarrow> string \<Rightarrow> string \<Rightarrow> 'f \<Rightarrow> (error + canvas_op) list" where
  "footer_ops env clinic primary_color font_name amount =
     [Inr (SetFont font_name 12),
      Inr (SetFillColor (ColorStr primary_color)),
      Inr (DrawString 400 370 (''Total Amount: Rs '' @ py_fmt2 env amount)),
      Inr (SetFont font_name 10),
      Inr (SetFillColor ColorBlack),
      draw_field 50 50 (\<lambda>v. ''Thank you for choosing '' @ v @ ''!'') clinic ''name'',
      contact_line clinic]"

text \<open>
  Everything the canvas receives, from the logo to the footer. The logo is drawn when
  the second \<open>verify_logo\<close> answered \<open>True\<close>.
\<close>

definition draw_claim ::
    "'f pyenv \<Rightarrow> draws \<Rightarrow> (string \<rightharpoonup> string) \<Rightarrow> string \<times> string \<Rightarrow> string \<Rightarrow>
     string \<Rightarrow> string \<Rightarrow> string \<Rightarrow> string list list \<Rightarrow> string \<Rightarrow> bool \<Rightarrow>
     error + canvas_op list" where
  "draw_claim env dr clinic doctor diagnosis primary_color secondary_color font_name
      billing_items logo_file logo_ok =
     bind_err (if logo_ok then draw env (DrawImage logo_file 50 700 100 50) [] else Inr [])
       (\<lambda>c.
     bind_err (run_ops env
         (header_ops dr clinic doctor diagnosis primary_color secondary_color font_name
            billing_items) c) (\<lambda>c.
     bind_err (total_amount env billing_items) (\<lambda>amount.
       run_ops env (footer_ops env clinic primary_color font_name amount) c)))"

text \<open>
  \<open>c.save()\<close> is the only place where the document reaches the disk: the file is
  written when the path can be opened, and then the success is logged.
\<close>

definition save_canvas ::
    "'f pyenv \<Rightarrow> string \<Rightarrow> canvas_op list \<Rightarrow> world \<Rightarrow> (error + unit) \<times> world" where
  "save_canvas env output_pdf c w =
     (if can_write env output_pdf then
        (Inr (), log_event (ClaimGenerated output_pdf) (write_file output_pdf (Pdf c) w))
      else (Inl (OSError output_pdf), w))"

text \<open>
  The logo statements of \<open>generate_claim_pdf\<close>: the logo is ensured, and then
  \<open>verify_logo\<close> runs a second time to decide whether the image is drawn.
\<close>

definition logo_step :: "'f pyenv \<Rightarrow> string \<Rightarrow> world \<Rightarrow> bool \<times> world" where
  "logo_step env name w =
     (let logo_file = logo_path name
      in verify_logo logo_file (ensure_logo env name logo_file w))"

text \<open>The body of the \<open>try\<close> of \<open>generate_claim_pdf\<close>.\<close>

definition claim_pdf_body ::
    "'f pyenv \<Rightarrow> draws \<Rightarrow> (string \<rightharpoonup> string) \<Rightarrow> string \<times> string \<Rightarrow> string \<Rightarrow> string \<Rightarrow>
     string \<Rightarrow> (string \<rightharpoonup> string) \<Rightarrow> string list list \<Rightarrow> world \<Rightarrow> (error + unit) \<times> world" where
  "claim_pdf_body env dr clinic doctor diagnosis fraud_type output_pdf design billing_items w =
     (case design_fields design of
        Inl e \<Rightarrow> (Inl e, w)
      | Inr (primary_color, secondary_color, font_name) \<Rightarrow>
          (case dict_index clinic ''name'' of
             Inl e \<Rightarrow> (Inl e, w)
           | Inr name \<Rightarrow>
               (case logo_step env name w of
                  (logo_ok, w2) \<Rightarrow>
                    (case draw_claim env dr clinic doctor diagnosis primary_color
                            secondary_color font_name billing_items (logo_path name) logo_ok of
                       Inl e \<Rightarrow> (Inl e, w2)
                     | Inr c \<Rightarrow> save_canvas env output_pdf c w2))))"

text \<open>
  \<open>generate_claim_pdf\<close>: the body under \<open>try\<close>, and the handler of
  \<open>except Exception\<close>, which logs the error with the kind tag and returns.
\<close>

definition generate_claim_pdf ::
    "'f pyenv \<Rightarrow> draws \<Rightarrow> (string \<rightharpoonup> string) \<Rightarrow> string \<times> string \<Rightarrow> string \<Rightarrow> string \<Rightarrow>
     string \<Rightarrow> (string \<rightharpoonup> string) \<Rightarrow> string list list \<Rightarrow> world \<Rightarrow> (error + unit) \<times> world" where
  "generate_claim_pdf env dr clinic doctor diagnosis fraud_type output_pdf design billing_items w =
     (case claim_pdf_body env dr clinic doctor diagnosis fraud_type output_pdf design
             billing_items w of
        (Inl e, w') \<Rightarrow> (Inr (), log_event (ClaimError fraud_type e) w')
      | (Inr u, w') \<Rightarrow> (Inr u, w'))"

text \<open>The two events that tell that \<open>generate_logo\<close> ran.\<close>

fun is_logo_generation :: "event \<Rightarrow> bool" where
  "is_logo_generation (LogoGenerated n f) = True"
| "is_logo_generation (LogoGenerationError n e) = True"
| "is_logo_generation _ = False"

text \<open>
  A sample environment for evaluating the model: the libraries never fail, every path
  can be written, and the floats are the whole numbers, read from a string of decimal
  digits and printed with \<open>.00\<close> (which is what CPython does for such strings while the
  numbers stay below \<open>2^53\<close>).
\<close>

fun digits_value :: "string \<Rightarrow> nat \<Rightarrow> nat option" where
  "digits_value [] acc = Some acc"
| "digits_value (ch # cs) acc =
     (let d = (of_char ch :: nat) in
      if 48 \<le> d \<and> d \<le> 57 then digits_value cs (10 * acc + (d - 48)) else None)"

definition whole_float :: "string \<Rightarrow> int option" where
  "whole_float s = (if s = [] then None else map_option int (digits_value s 0))"

definition sample_env :: "int pyenv" where
  "sample_env =
     \<lparr>py_float = whole_float,
      py_sum = sum_list,
      py_fmt2 = (\<lambda>x. str_int x @ ''.00''),
      canvas_ok = (\<lambda>c op. True),
      pil_draws = (\<lambda>t. True),
      can_write = (\<lambda>p. True)\<rparr>"

definition no_files :: world where
  "no_files = \<lparr>files = Map.empty, log = []\<rparr>"

definition sample_draws :: draws where
  "sample_draws = \<lparr>patient_name = ''Ann Lee'', patient_id = 123456, today = ''2024-01-01''\<rparr>"

definition sample_clinic :: "string \<rightharpoonup> string" where
  "sample_clinic =
     [''name'' \<mapsto> ''City Clinic'', ''address'' \<mapsto> ''1 Main St'', ''telephone'' \<mapsto> ''555'',
      ''email'' \<mapsto> ''N/A'']"

definition sample_design :: "string \<rightharpoonup> string" where
  "sample_design =
     [''primary_color'' \<mapsto> ''#1f77b4'', ''secondary_color'' \<mapsto> ''#aec7e8'',
      ''font'' \<mapsto> ''Courier'']"

text \<open>A sample billing table: two complete items, an empty list, an entry without the
  list, and a list whose second item has only its name.\<close>

definition consult_item :: item where
  "consult_item =
     [''Item'' \<mapsto> JStr ''Consult'', ''Description'' \<mapsto> JStr ''GP visit'',
      ''Quantity'' \<mapsto> JInt 1, ''Unit Price'' \<mapsto> JInt 800, ''Total'' \<mapsto> JInt 800]"

definition lab_item :: item where
  "lab_item =
     [''Item'' \<mapsto> JStr ''Lab Test'', ''Description'' \<mapsto> JStr ''Blood count'',
      ''Quantity'' \<mapsto> JInt 2, ''Unit Price'' \<mapsto> JInt 250, ''Total'' \<mapsto> JStr ''500'']"

definition sample_billing :: billing_table where
  "sample_billing =
     [''Flu'' \<mapsto> [''billing_items'' \<mapsto> [consult_item, lab_item]],
      ''Cold'' \<mapsto> [''billing_items'' \<mapsto> []],
      ''Gout'' \<mapsto> Map.empty,
      ''Rash'' \<mapsto> [''billing_items'' \<mapsto> [consult_item, [''Item'' \<mapsto> JStr ''Cream'']]]]"

text \<open>Sample data of a batch: two doctors, of whom the second has a specialty the table
  does not list, and draws that give slot \<open>i\<close> the doctor number \<open>i\<close>.\<close>

definition sample_doctors :: "(string \<times> string) list" where
  "sample_doctors = [(''Dr A'', ''GP''), (''Dr B'', ''Surgeon'')]"

definition sample_specialties :: "(string \<times> string list) list" where
  "sample_specialties = [(''GP'', [''Flu''])]"

definition sample_designs :: "string \<rightharpoonup> string \<rightharpoonup> string" where
  "sample_designs = [''City Clinic'' \<mapsto> sample_design]"

definition sample_rnd :: "string \<Rightarrow> nat \<Rightarrow> nat \<times> nat \<times> nat" where
  "sample_rnd kind i = (0, i, 0)"

section \<open>claimgenerator.py: the design store\<close>

type_synonym clinic = "string \<rightharpoonup> string"
type_synonym style = "string \<rightharpoonup> string"
type_synonym designs = "string \<rightharpoonup> style"

definition primary_palette :: "string list" where
  "primary_palette = [''#1f77b4'', ''#ff7f0e'', ''#2ca02c'', ''#d62728'', ''#9467bd'']"

definition secondary_palette :: "string list" where
  "secondary_palette = [''#aec7e8'', ''#ffbb78'', ''#98df8a'', ''#ff9896'', ''#c5b0d5'']"

definition font_palette :: "string list" where
  "font_palette = [''Helvetica-Bold'', ''Times-Roman'', ''Courier'']"

text \<open>
  \<open>random.choice\<close>: the number is what the generator draws; every element of a non-empty
  list can be chosen, and an empty list raises \<open>IndexError\<close>.
\<close>

definition random_choice :: "'a list \<Rightarrow> nat \<Rightarrow> error + 'a" where
  "random_choice xs r = (if xs = [] then Inl IndexError else Inr (xs ! (r mod length xs)))"

text \<open>
  The loop that creates the designs: one entry per clinic, under its name, with three
  draws each (\<open>rnd\<close> is the stream of draws and \<open>k\<close> the position in it). A later clinic
  of the same name overwrites the entry.
\<close>

fun create_designs :: "(nat \<Rightarrow> nat) \<Rightarrow> nat \<Rightarrow> clinic list \<Rightarrow> designs \<Rightarrow> error + designs" where
  "create_designs rnd k [] designs = Inr designs"
| "create_designs rnd k (clinic # clinics) designs =
     bind_err (dict_index clinic ''name'') (\<lambda>clinic_name.
     bind_err (random_choice primary_palette (rnd k)) (\<lambda>primary.
     bind_err (random_choice secondary_palette (rnd (k + 1))) (\<lambda>secondary.
     bind_err (random_choice font_palette (rnd (k + 2))) (\<lambda>font.
       create_designs rnd (k + 3) clinics
         (designs(clinic_name \<mapsto>
            [''primary_color'' \<mapsto> primary, ''secondary_color'' \<mapsto> secondary,
             ''font'' \<mapsto> font]))))))"

text \<open>
  \<open>load_or_create_designs\<close>. A design file that exists is read and its JSON object
  returned as it is; the list of clinics is not looked at. A file at this path with any
  other content is taken as one \<open>json.load\<close> cannot decode. Without a file the designs
  are created and written. Nothing is caught here.
\<close>

definition load_or_create_designs ::
    "'f pyenv \<Rightarrow> (nat \<Rightarrow> nat) \<Rightarrow> clinic list \<Rightarrow> world \<Rightarrow> (error + designs) \<times> world" where
  "load_or_create_designs env rnd clinics_info w =
     (case files w design_file of
        Some content \<Rightarrow>
          (case content of
             DesignJson stored \<Rightarrow> (Inr stored, w)
           | _ \<Rightarrow> (Inl (DecodeError design_file), w))
      | None \<Rightarrow>
          (case create_designs rnd 0 clinics_info Map.empty of
             Inl e \<Rightarrow> (Inl e, w)
           | Inr designs \<Rightarrow>
               if can_write env design_file
               then (Inr designs, write_file design_file (DesignJson designs) w)
               else (Inl (OSError design_file), w)))"

section \<open>claimgenerator.py: loading the input files\<close>

definition clinics_csv :: string where
  "clinics_csv = ''hospitals_and_clinics.csv''"

definition doctors_csv :: string where
  "doctors_csv = ''doctors_and_specialists_list.csv''"












text \<open>A style whose three entries come from the three palettes.\<close>

definition palette_style :: "style \<Rightarrow> bool" where
  "palette_style st =
     (case (st ''primary_color'', st ''secondary_color'', st ''font'') of
        (Some primary, Some secondary, Some font) \<Rightarrow>
          primary \<in> set primary_palette \<and> secondary \<in> set secondary_palette \<and>
          font \<in> set font_palette
      | _ \<Rightarrow> False)"

section \<open>clinic_scrapper.py and doctor_scrapper.py: saving the results\<close>

text \<open>
  A scraped hospital record is a dict in insertion order, from field names to a string
  or \<open>None\<close>; its keys are distinct.
\<close>

type_synonym detail = "(string \<times> string option) list"

text \<open>
  A row of \<open>csv.DictWriter\<close>: a dict with a key outside the field names raises
  \<open>ValueError\<close>; else there is one cell for each field name, empty for a missing key and
  for \<open>None\<close>.
\<close>

definition dict_to_list :: "string list \<Rightarrow> detail \<Rightarrow> error + string list" where
  "dict_to_list fieldnames rowdict =
     (if list_ex (\<lambda>key. key \<notin> set fieldnames) (map fst rowdict)
      then Inl (ValueError ''dict contains fields not in fieldnames'')
      else Inr (map (\<lambda>key. case map_of rowdict key of
                               None \<Rightarrow> []
                             | Some None \<Rightarrow> []
                             | Some (Some v) \<Rightarrow> v) fieldnames))"

text \<open>
  The loop over the records inside the \<open>with\<close>: the rows written before an exception
  stay in the file.
\<close>

fun write_rows ::
    "string list \<Rightarrow> detail list \<Rightarrow> string list list \<Rightarrow> string list list \<times> error option" where
  "write_rows fieldnames [] written = (written, None)"
| "write_rows fieldnames (detail # details) written =
     (case dict_to_list fieldnames detail of
        Inl e \<Rightarrow> (written, Some e)
      | Inr row \<Rightarrow> write_rows fieldnames details (written @ [row]))"

text \<open>
  \<open>save_to_csv\<close> of the clinic scraper: nothing to save is a warning and a return; else
  the header is the keys of the first record, and an exception while the file is open
  is caught and logged.
\<close>

definition save_to_csv :: "'f pyenv \<Rightarrow> detail list \<Rightarrow> world \<Rightarrow> world" where
  "save_to_csv env hospital_details w =
     (case hospital_details of
        [] \<Rightarrow> log_event NoHospitalDetails w
      | first # others \<Rightarrow>
          (let keys = map fst first in
           if \<not> can_write env clinics_csv
           then log_event (CsvSaveError (OSError clinics_csv)) w
           else (case write_rows keys hospital_details [] of
                   (rows, None) \<Rightarrow>
                     log_event HospitalsSaved (write_file clinics_csv (Csv keys rows) w)
                 | (rows, Some e) \<Rightarrow>
                     log_event (CsvSaveError e) (write_file clinics_csv (Csv keys rows) w))))"

text \<open>
  \<open>save_doctors_to_csv\<close> of the doctor scraper: the count is logged, the file is opened,
  the fixed header and all rows are written, and the success is logged. Nothing is
  tested and nothing is caught.
\<close>

definition save_doctors_to_csv ::
    "'f pyenv \<Rightarrow> string list list \<Rightarrow> string \<Rightarrow> world \<Rightarrow> (error + unit) \<times> world" where
  "save_doctors_to_csv env doctor_data filename w =
     (let w1 = log_event (SavingDoctors (length doctor_data)) w in
      if can_write env filename
      then (Inr (), log_event (DoctorsSaved filename)
                      (write_file filename (Csv [''Doctor Name'', ''Specialty''] doctor_data) w1))
      else (Inl (OSError filename), w1))"

text \<open>A record of the clinic scraper, as \<open>fetch_hospital_details\<close> builds it.\<close>

definition sample_detail :: detail where
  "sample_detail =
     [(''name'', Some ''City Clinic''), (''field'', Some ''Clinic''), (''telephone'', None),
      (''address'', Some ''1 Main St''), (''location'', None)]"

section \<open>claimgenerator.py: the batch of claims\<close>

text \<open>What \<open>executor.submit\<close> receives: the arguments of one call of \<open>generate_claim_pdf\<close>.\<close>

record task =
  task_clinic :: clinic
  task_doctor :: "string \<times> string"
  task_diagnosis :: string
  task_kind :: string
  task_output :: string
  task_design :: style
  task_billing :: "string list list"

definition legitimate_count :: nat where
  "legitimate_count = 50"

definition fraudulent_count :: nat where
  "fraudulent_count = 50"

text \<open>The destination of slot \<open>i\<close>: \<^verbatim>\<open>os.path.join(output_dir, f"legit_claim_{i}.pdf")\<close>.\<close>

definition claim_path :: "string \<Rightarrow> nat \<Rightarrow> string" where
  "claim_path file_prefix i = os_path_join output_dir (file_prefix @ str_nat i @ ''.pdf'')"

text \<open>
  One pass through the body of a selection loop, for slot \<open>i\<close>. The three numbers are
  what the random generator draws for the clinic, the doctor and the diagnosis. The
  answer is the task that is submitted, \<open>None\<close> when the specialty of the doctor is not a
  key of the specialty table (the \<open>if\<close> has no \<open>else\<close>), or the exception that leaves the
  loop. The arguments of \<open>submit\<close> are evaluated in order, the design after the
  destination.
\<close>

definition claim_slot ::
    "string \<Rightarrow> string \<Rightarrow> (nat \<Rightarrow> nat \<times> nat \<times> nat) \<Rightarrow> clinic list \<Rightarrow> (string \<times> string) list \<Rightarrow>
     (string \<times> string list) list \<Rightarrow> designs \<Rightarrow> billing_table \<Rightarrow> nat \<Rightarrow> error + task option" where
  "claim_slot file_prefix kind rnd clinics_info doctors_info specialties_diseases designs
      billing_items_data i =
     (case rnd i of (r_clinic, r_doctor, r_diagnosis) \<Rightarrow>
        bind_err (random_choice clinics_info r_clinic) (\<lambda>clinic.
        bind_err (random_choice doctors_info r_doctor) (\<lambda>doctor.
          (case map_of specialties_diseases (snd doctor) of
             None \<Rightarrow> Inr None
           | Some diagnoses \<Rightarrow>
               bind_err (random_choice diagnoses r_diagnosis) (\<lambda>diagnosis.
               bind_err (get_billing_items_for_diagnosis diagnosis billing_items_data)
                 (\<lambda>billing_items.
               bind_err (dict_index clinic ''name'') (\<lambda>name.
               bind_err (dict_index designs name) (\<lambda>design.
                 Inr (Some \<lparr>task_clinic = clinic, task_doctor = doctor,
                            task_diagnosis = diagnosis, task_kind = kind,
                            task_output = claim_path file_prefix i,
                            task_design = design, task_billing = billing_items\<rparr>)))))))))"

text \<open>
  A selection loop over its slots: a task is appended to the futures, a skipped slot
  adds nothing and the loop goes on to the next index, and an exception ends the loop
  with the futures submitted so far.
\<close>

fun submit_slots ::
    "(nat \<Rightarrow> error + task option) \<Rightarrow> nat list \<Rightarrow> task list \<Rightarrow> task list \<times> error option" where
  "submit_slots slot [] futures = (futures, None)"
| "submit_slots slot (i # slots) futures =
     (case slot i of
        Inl e \<Rightarrow> (futures, Some e)
      | Inr None \<Rightarrow> submit_slots slot slots futures
      | Inr (Some t) \<Rightarrow> submit_slots slot slots (futures @ [t]))"

text \<open>The two loops, the legitimate claims first; each has its own random draws.\<close>

definition submit_batch ::
    "(string \<Rightarrow> nat \<Rightarrow> nat \<times> nat \<times> nat) \<Rightarrow> clinic list \<Rightarrow> (string \<times> string) list \<Rightarrow>
     (string \<times> string list) list \<Rightarrow> designs \<Rightarrow> billing_table \<Rightarrow> nat \<Rightarrow> nat \<Rightarrow>
     task list \<times> error option" where
  "submit_batch rnd clinics_info doctors_info specialties_diseases designs billing_items_data
      n_legitimate n_fraudulent =
     (case submit_slots
             (claim_slot ''legit_claim_'' ''legitimate'' (rnd ''legitimate'') clinics_info
                doctors_info specialties_diseases designs billing_items_data)
             [0..<n_legitimate] [] of
        (futures, Some e) \<Rightarrow> (futures, Some e)
      | (futures, None) \<Rightarrow>
          submit_slots
            (claim_slot ''fraud_claim_'' ''fraudulent'' (rnd ''fraudulent'') clinics_info
               doctors_info specialties_diseases designs billing_items_data)
            [0..<n_fraudulent] futures)"

text \<open>
  Running submitted tasks. The pool runs them in an order of its own; here a run is a
  list of tasks executed one after the other, each with its own draws from Faker.
\<close>

definition run_task :: "'f pyenv \<Rightarrow> draws \<Rightarrow> task \<Rightarrow> world \<Rightarrow> world" where
  "run_task env dr t w =
     snd (generate_claim_pdf env dr (task_clinic t) (task_doctor t) (task_diagnosis t)
            (task_kind t) (task_output t) (task_design t) (task_billing t) w)"

fun run_tasks :: "'f pyenv \<Rightarrow> (nat \<Rightarrow> draws) \<Rightarrow> nat \<Rightarrow> task list \<Rightarrow> world \<Rightarrow> world" where
  "run_tasks env fake k [] w = w"
| "run_tasks env fake k (t # ts) w = run_tasks env fake (Suc k) ts (run_task env (fake k) t w)"

section \<open>Properties of the billing lines\<close>

lemma bind_err_Inr_iff: "bind_err m f = Inr y \<longleftrightarrow> (\<exists>x. m = Inr x \<and> f x = Inr y)"
  by (cases m) (simp_all add: bind_err_def)

lemma bind_err_Inl_iff:
  "bind_err m f = Inl e \<longleftrightarrow> m = Inl e \<or> (\<exists>x. m = Inr x \<and> f x = Inl e)"
  by (cases m) (simp_all add: bind_err_def)

lemma bind_err_simps:
  "bind_err (Inl e) f = Inl e"
  "bind_err (Inr x) f = f x"
  by (simp_all add: bind_err_def)


lemma item_row_has_fields:
  assumes "has_fields it"
  shows "\<exists>r. item_row it = Inr r"
proof -
  from assms obtain i d q u t where
    "it ''Item'' = Some i" "it ''Description'' = Some d" "it ''Quantity'' = Some q"
    "it ''Unit Price'' = Some u" "it ''Total'' = Some t"
    by (auto simp: has_fields_def)
  then show ?thesis
    by (simp add: item_row_def dict_index_def bind_err_simps)
qed

lemma item_rows_has_fields: "list_all has_fields its \<Longrightarrow> \<exists>rows. item_rows its = Inr rows"
proof (induction its)
  case Nil
  show ?case by simp
next
  case (Cons it its)
  then obtain r rows where "item_row it = Inr r" "item_rows its = Inr rows"
    using item_row_has_fields by fastforce
  then show ?case by (simp add: bind_err_simps)
qed

text \<open>
  Claim C1. For a diagnosis name that is not a key of the billing-items table,
  \<open>get_billing_items_for_diagnosis\<close> returns exactly the two fallback rows, the
  consultation row followed by the lab test row.
\<close>

theorem absent_diagnosis_gets_fallback:
  assumes "billing_items_data diagnosis = None"
  shows "get_billing_items_for_diagnosis diagnosis billing_items_data =
     Inr [[''Consultation'', ''General Consultation'', ''1'', ''1000'', ''1000''],
          [''Lab Test'', ''General Lab Test'', ''1'', ''500'', ''500'']]"
  using assms
  by (simp add: get_billing_items_for_diagnosis_def diagnosis_items_def dict_get_def
      fallback_items_def)

theorem absent_diagnosis_gets_fallback_witness:
  "[''Flu'' \<mapsto> [''billing_items'' \<mapsto> []]] ''Malaria'' = (None :: billing_entry option) \<and>
   get_billing_items_for_diagnosis ''Malaria'' [''Flu'' \<mapsto> [''billing_items'' \<mapsto> []]] =
     Inr [[''Consultation'', ''General Consultation'', ''1'', ''1000'', ''1000''],
          [''Lab Test'', ''General Lab Test'', ''1'', ''500'', ''500'']]"
proof -
  have absent: "[''Flu'' \<mapsto> [''billing_items'' \<mapsto> []]] ''Malaria'' = (None :: billing_entry option)"
    by simp
  from absent_diagnosis_gets_fallback
      [of "[''Flu'' \<mapsto> [''billing_items'' \<mapsto> []]]" "''Malaria''"] absent
  show ?thesis
    by blast
qed





section \<open>Properties of the logo and of the rendering\<close>

lemma files_log_event [simp]: "files (log_event ev w) = files w"
  by (simp add: log_event_def)

lemma log_log_event [simp]: "log (log_event ev w) = log w @ [ev]"
  by (simp add: log_event_def)

lemma files_write_file [simp]: "files (write_file p x w) = (files w)(p \<mapsto> x)"
  by (simp add: write_file_def)

lemma log_write_file [simp]: "log (write_file p x w) = log w"
  by (simp add: write_file_def)

lemma verify_logo_files [simp]: "files (snd (verify_logo f w)) = files w"
  by (simp add: verify_logo_def split: option.splits fcontent.splits)

lemma verify_logo_fst: "fst (verify_logo f w) \<longleftrightarrow> (\<exists>t. files w f = Some (ImageFile t))"
  by (simp add: verify_logo_def split: option.splits fcontent.splits)

lemma verify_logo_generation [simp]:
  "filter is_logo_generation (log (snd (verify_logo f w))) = filter is_logo_generation (log w)"
  by (simp add: verify_logo_def split: option.splits fcontent.splits)

lemma verify_logo_image [simp]: "files w f = Some (ImageFile t) \<Longrightarrow> verify_logo f w = (True, w)"
  by (simp add: verify_logo_def)

lemma generate_logo_files:
  "files (snd (generate_logo env n f w)) =
     (if pil_draws env (take 20 n) \<and> can_write env f then (files w)(f \<mapsto> ImageFile (take 20 n))
      else files w)"
  by (simp add: generate_logo_def Let_def)

lemma generate_logo_log:
  "log (snd (generate_logo env n f w)) =
     log w @ [if \<not> pil_draws env (take 20 n) then LogoGenerationError n LibraryError
              else if \<not> can_write env f then LogoGenerationError n (OSError f)
              else LogoGenerated n f]"
  by (simp add: generate_logo_def Let_def)

lemma ensure_logo_reuse: "files w f = Some (ImageFile t) \<Longrightarrow> ensure_logo env n f w = w"
  by (simp add: ensure_logo_def)

lemma ensure_logo_regenerate:
  assumes "\<not> (\<exists>t. files w f = Some (ImageFile t))"
  shows "\<exists>w1. files w1 = files w \<and>
           filter is_logo_generation (log w1) = filter is_logo_generation (log w) \<and>
           ensure_logo env n f w = snd (generate_logo env n f w1)"
proof (cases "files w f")
  case None
  then show ?thesis by (auto simp: ensure_logo_def)
next
  case (Some x)
  with assms have no: "fst (verify_logo f w) = False"
    by (simp add: verify_logo_fst)
  obtain b w1 where v: "verify_logo f w = (b, w1)" by fastforce
  with no have b: "b = False" by simp
  from v have "files w1 = files w" "filter is_logo_generation (log w1) = filter is_logo_generation (log w)"
    using verify_logo_files [of f w] verify_logo_generation [of f w] by simp_all
  with Some v b show ?thesis
    by (auto simp: ensure_logo_def)
qed

lemma ensure_logo_files:
  "files (ensure_logo env n f w) p = files w p \<or>
   (p = f \<and> files (ensure_logo env n f w) p = Some (ImageFile (take 20 n)))"
proof (cases "\<exists>t. files w f = Some (ImageFile t)")
  case True
  then show ?thesis by (auto simp: ensure_logo_reuse)
next
  case False
  from ensure_logo_regenerate [OF False, of env n] obtain w1 where
    "files w1 = files w" "ensure_logo env n f w = snd (generate_logo env n f w1)" by blast
  then show ?thesis by (simp add: generate_logo_files)
qed

lemma run_ops_Inr:
  "run_ops env steps c = Inr c' \<Longrightarrow> \<exists>ops. steps = map Inr ops \<and> c' = c @ ops"
proof (induction env steps c arbitrary: c' rule: run_ops.induct)
  case (1 env c)
  then show ?case by simp
next
  case (2 env e steps c)
  then show ?case by simp
next
  case (3 env op steps c)
  from "3.prems" obtain c1 where d: "draw env op c = Inr c1" and r: "run_ops env steps c1 = Inr c'"
    by (auto simp: bind_err_Inr_iff)
  from d have c1: "c1 = c @ [op]" by (simp add: draw_def split: if_splits)
  from "3.IH" [OF r] obtain ops where "steps = map Inr ops" "c' = c1 @ ops" by blast
  with c1 have "Inr op # steps = map Inr (op # ops) \<and> c' = c @ (op # ops)" by simp
  then show ?case by (rule exI [of _ "op # ops"])
qed

lemma parse_totals_Inr_iff:
  "parse_totals env items = Inr xs \<longleftrightarrow>
     list_all (\<lambda>item. 4 < length item) items \<and>
     map (\<lambda>item. py_float env (item ! 4)) items = map Some xs"
proof (induction items arbitrary: xs)
  case Nil
  show ?case by auto
next
  case (Cons item items)
  show ?case
    by (cases xs)
      (auto simp: bind_err_Inr_iff getitem_def float_of_def Cons.IH split: option.splits)
qed

lemma parse_totals_fifth_only:
  "map (\<lambda>item. getitem item 4) items' = map (\<lambda>item. getitem item 4) items \<Longrightarrow>
   parse_totals env items' = parse_totals env items"
proof (induction items' arbitrary: items)
  case Nil
  then show ?case by simp
next
  case (Cons a items')
  then obtain b rest where items: "items = b # rest" by (cases items) auto
  with Cons.prems have "getitem a 4 = getitem b 4"
    "map (\<lambda>item. getitem item 4) items' = map (\<lambda>item. getitem item 4) rest" by simp_all
  with Cons.IH [of rest] items show ?case by simp
qed

lemma draw_claim_Inr:
  assumes "draw_claim env dr clinic doctor diagnosis pc sc fn billing_items logo ok = Inr c"
  shows "\<exists>ops1 xs ops2.
           header_ops dr clinic doctor diagnosis pc sc fn billing_items = map Inr ops1 \<and>
           parse_totals env billing_items = Inr xs \<and>
           footer_ops env clinic pc fn (py_sum env xs) = map Inr ops2 \<and>
           c = (if ok then [DrawImage logo 50 700 100 50] else []) @ ops1 @ ops2"
proof -
  from assms obtain c0 c1 amount where
    c0: "(if ok then draw env (DrawImage logo 50 700 100 50) [] else Inr []) = Inr c0" and
    c1: "run_ops env (header_ops dr clinic doctor diagnosis pc sc fn billing_items) c0 = Inr c1" and
    am: "total_amount env billing_items = Inr amount" and
    c: "run_ops env (footer_ops env clinic pc fn amount) c1 = Inr c"
    unfolding draw_claim_def bind_err_Inr_iff by blast
  from c0 have c0': "c0 = (if ok then [DrawImage logo 50 700 100 50] else [])"
    by (auto simp: draw_def split: if_splits)
  from run_ops_Inr [OF c1] obtain ops1 where
    ops1: "header_ops dr clinic doctor diagnosis pc sc fn billing_items = map Inr ops1" "c1 = c0 @ ops1"
    by blast
  from am obtain xs where xs: "parse_totals env billing_items = Inr xs" "amount = py_sum env xs"
    by (auto simp: total_amount_def bind_err_Inr_iff)
  from run_ops_Inr [OF c] obtain ops2 where
    ops2: "footer_ops env clinic pc fn amount = map Inr ops2" "c = c1 @ ops2"
    by blast
  from c0' ops1 xs ops2 show ?thesis by auto
qed

lemma draw_field_Inr_iff:
  "draw_field x y fmt clinic key = Inr op \<longleftrightarrow>
     (\<exists>v. clinic key = Some v \<and> op = DrawString x y (fmt v))"
  by (auto simp: draw_field_def dict_index_def bind_err_Inr_iff split: option.splits)

lemma Inr_draw_field_iff:
  "Inr op = draw_field x y fmt clinic key \<longleftrightarrow>
     (\<exists>v. clinic key = Some v \<and> op = DrawString x y (fmt v))"
  by (subst eq_commute) (rule draw_field_Inr_iff)

lemma header_ops_no_total:
  assumes "header_ops dr clinic doctor diagnosis pc sc fn billing_items = map Inr ops1"
  shows "DrawString 400 370 s \<notin> set ops1"
proof
  assume "DrawString 400 370 s \<in> set ops1"
  then have "Inr (DrawString 400 370 s) \<in> Inr ` set ops1" by blast
  then have "Inr (DrawString 400 370 s) \<in> set (header_ops dr clinic doctor diagnosis pc sc fn billing_items)"
    unfolding assms by simp
  then show False
    by (auto simp: header_ops_def Inr_draw_field_iff)
qed

lemma contact_line_Inr_iff:
  "contact_line clinic = Inr op \<longleftrightarrow>
     (\<exists>t e. clinic ''telephone'' = Some t \<and> clinic ''email'' = Some e \<and>
        op = DrawString 50 35 (''For any queries, please contact us at '' @ t @ '' or '' @ e))"
  by (auto simp: contact_line_def dict_index_def bind_err_Inr_iff split: option.splits)

lemma Inr_contact_line_iff:
  "Inr op = contact_line clinic \<longleftrightarrow>
     (\<exists>t e. clinic ''telephone'' = Some t \<and> clinic ''email'' = Some e \<and>
        op = DrawString 50 35 (''For any queries, please contact us at '' @ t @ '' or '' @ e))"
  by (subst eq_commute) (rule contact_line_Inr_iff)

lemma footer_ops_total:
  assumes "footer_ops env clinic pc fn amount = map Inr ops2"
  shows "DrawString 400 370 s \<in> set ops2 \<longleftrightarrow> s = ''Total Amount: Rs '' @ py_fmt2 env amount"
proof -
  have "DrawString 400 370 s \<in> set ops2 \<longleftrightarrow>
      (Inr (DrawString 400 370 s) :: error + canvas_op) \<in> set (map Inr ops2)"
    by auto
  then have mem: "DrawString 400 370 s \<in> set ops2 \<longleftrightarrow>
      Inr (DrawString 400 370 s) \<in> set (footer_ops env clinic pc fn amount)"
    by (simp only: assms)
  have "Inr (DrawString 400 370 s) \<in> set (footer_ops env clinic pc fn amount)
      \<longleftrightarrow> s = ''Total Amount: Rs '' @ py_fmt2 env amount"
    by (auto simp: footer_ops_def Inr_draw_field_iff Inr_contact_line_iff)
  with mem show ?thesis by (simp only:)
qed

lemma ensure_logo_log: "\<exists>evs. log (ensure_logo env n f w) = log w @ evs"
  by (auto simp: ensure_logo_def verify_logo_def generate_logo_log
      split: option.splits fcontent.splits)

lemma verify_logo_log: "\<exists>evs. log (snd (verify_logo f w)) = log w @ evs"
  by (auto simp: verify_logo_def split: option.splits fcontent.splits)

lemma logo_step_log: "\<exists>evs. log (snd (logo_step env name w)) = log w @ evs"
proof -
  obtain evs1 where "log (ensure_logo env name (logo_path name) w) = log w @ evs1"
    using ensure_logo_log by blast
  moreover obtain evs2 where
    "log (snd (verify_logo (logo_path name) (ensure_logo env name (logo_path name) w))) =
       log (ensure_logo env name (logo_path name) w) @ evs2"
    using verify_logo_log by blast
  ultimately show ?thesis by (simp add: logo_step_def Let_def)
qed

lemma logo_step_files:
  "files (snd (logo_step env name w)) p = files w p \<or>
   (p = logo_path name \<and> files (snd (logo_step env name w)) p = Some (ImageFile (take 20 name)))"
  using ensure_logo_files [of env name "logo_path name" w p]
  by (simp add: logo_step_def Let_def)

lemma logo_step_fst:
  "fst (logo_step env name w) \<longleftrightarrow>
     (\<exists>t. files (snd (logo_step env name w)) (logo_path name) = Some (ImageFile t))"
  by (simp add: logo_step_def Let_def verify_logo_fst)

text \<open>The four ways through the body of the \<open>try\<close>.\<close>

lemma claim_pdf_body_cases:
  fixes env :: "'f pyenv"
  obtains
    (design) e where
      "design_fields design = Inl e"
      "claim_pdf_body env dr clinic doctor diagnosis fraud_type output_pdf design billing_items w =
         (Inl e, w)"
  | (name) "clinic ''name'' = None"
      "claim_pdf_body env dr clinic doctor diagnosis fraud_type output_pdf design billing_items w =
         (Inl (KeyError ''name''), w)"
  | (drawing) pc sc fn name e where
      "design_fields design = Inr (pc, sc, fn)" "clinic ''name'' = Some name"
      "draw_claim env dr clinic doctor diagnosis pc sc fn billing_items (logo_path name)
         (fst (logo_step env name w)) = Inl e"
      "claim_pdf_body env dr clinic doctor diagnosis fraud_type output_pdf design billing_items w =
         (Inl e, snd (logo_step env name w))"
  | (drawn) pc sc fn name c where
      "design_fields design = Inr (pc, sc, fn)" "clinic ''name'' = Some name"
      "draw_claim env dr clinic doctor diagnosis pc sc fn billing_items (logo_path name)
         (fst (logo_step env name w)) = Inr c"
      "claim_pdf_body env dr clinic doctor diagnosis fraud_type output_pdf design billing_items w =
         save_canvas env output_pdf c (snd (logo_step env name w))"
proof (cases "design_fields design")
  case (Inl e)
  then show ?thesis by (intro design [of e]) (simp_all add: claim_pdf_body_def)
next
  case (Inr t)
  obtain pc sc fn where t: "t = (pc, sc, fn)" by (cases t) auto
  show ?thesis
  proof (cases "clinic ''name''")
    case None
    with Inr t show ?thesis
      by (intro name) (simp_all add: claim_pdf_body_def dict_index_def)
  next
    case (Some n)
    obtain ok w2 where ls: "logo_step env n w = (ok, w2)" by fastforce
    show ?thesis
    proof (cases "draw_claim env dr clinic doctor diagnosis pc sc fn billing_items (logo_path n) ok")
      case (Inl e)
      with Inr t Some ls show ?thesis
        by (intro drawing [of pc sc fn n e]) (simp_all add: claim_pdf_body_def dict_index_def)
    next
      case (Inr c)
      with \<open>design_fields design = Inr t\<close> t Some ls show ?thesis
        by (intro drawn [of pc sc fn n c]) (simp_all add: claim_pdf_body_def dict_index_def)
    qed
  qed
qed

lemma generate_claim_pdf_failed:
  "claim_pdf_body env dr clinic doctor diagnosis fraud_type output_pdf design billing_items w =
     (Inl e, w') \<Longrightarrow>
   generate_claim_pdf env dr clinic doctor diagnosis fraud_type output_pdf design billing_items w =
     (Inr (), log_event (ClaimError fraud_type e) w')"
  by (simp add: generate_claim_pdf_def)

lemma generate_claim_pdf_done:
  "claim_pdf_body env dr clinic doctor diagnosis fraud_type output_pdf design billing_items w =
     (Inr u, w') \<Longrightarrow>
   generate_claim_pdf env dr clinic doctor diagnosis fraud_type output_pdf design billing_items w =
     (Inr u, w')"
  by (simp add: generate_claim_pdf_def)

lemma save_canvas_cases:
  "save_canvas env output_pdf c w =
     (if can_write env output_pdf
      then (Inr (), log_event (ClaimGenerated output_pdf) (write_file output_pdf (Pdf c) w))
      else (Inl (OSError output_pdf), w))"
  by (simp add: save_canvas_def)

lemma claim_pdf_body_failed_world:
  assumes "claim_pdf_body env dr clinic doctor diagnosis fraud_type output_pdf design
             billing_items w = (Inl e, w')"
  shows "w' = w \<or> (\<exists>name. clinic ''name'' = Some name \<and> w' = snd (logo_step env name w))"
proof (cases rule: claim_pdf_body_cases
    [of design env dr clinic doctor diagnosis fraud_type output_pdf billing_items w])
  case (design e)
  with assms show ?thesis by simp
next
  case name
  with assms show ?thesis by simp
next
  case (drawing pc sc fn name e)
  with assms show ?thesis by auto
next
  case (drawn pc sc fn name c)
  with assms show ?thesis by (auto simp: save_canvas_cases split: if_splits)
qed

lemma claim_pdf_body_done_world:
  assumes "claim_pdf_body env dr clinic doctor diagnosis fraud_type output_pdf design
             billing_items w = (Inr u, w')"
  shows "\<exists>pc sc fn name c. design_fields design = Inr (pc, sc, fn) \<and> clinic ''name'' = Some name \<and>
           draw_claim env dr clinic doctor diagnosis pc sc fn billing_items (logo_path name)
             (fst (logo_step env name w)) = Inr c \<and>
           can_write env output_pdf \<and>
           w' = log_event (ClaimGenerated output_pdf)
                  (write_file output_pdf (Pdf c) (snd (logo_step env name w)))"
proof (cases rule: claim_pdf_body_cases
    [of design env dr clinic doctor diagnosis fraud_type output_pdf billing_items w])
  case (design e)
  with assms show ?thesis by simp
next
  case name
  with assms show ?thesis by simp
next
  case (drawing pc sc fn name e)
  with assms show ?thesis by auto
next
  case (drawn pc sc fn name c)
  with assms show ?thesis by (auto simp: save_canvas_cases split: if_splits)
qed

lemma sample_env_simps:
  "py_float sample_env = whole_float"
  "py_sum sample_env = sum_list"
  "py_fmt2 sample_env = (\<lambda>x. str_int x @ ''.00'')"
  "canvas_ok sample_env = (\<lambda>c op. True)"
  "pil_draws sample_env = (\<lambda>t. True)"
  "can_write sample_env = (\<lambda>p. True)"
  by (simp_all add: sample_env_def)

lemma sample_design_fields: "design_fields sample_design = Inr (''#1f77b4'', ''#aec7e8'', ''Courier'')"
  by (simp add: design_fields_def sample_design_def dict_index_def bind_err_def)

lemma sample_logo_step:
  "logo_step sample_env ''City Clinic'' no_files =
     (True, log_event (LogoGenerated ''City Clinic'' ''logos/logo_City Clinic.png'')
        (write_file ''logos/logo_City Clinic.png'' (ImageFile ''City Clinic'') no_files))"
  by (simp add: logo_step_def ensure_logo_def generate_logo_def verify_logo_def logo_path_def
      os_path_join_def logos_dir_def sample_env_simps no_files_def Let_def log_event_def write_file_def)

lemma whole_float_800: "whole_float ''800'' = Some 800"
  by (simp add: whole_float_def Let_def)

lemma str_int_800: "str_int 800 = ''800''"
  by code_simp

lemma sample_claim_rendered:
  "fst (claim_pdf_body sample_env sample_draws sample_clinic (''Dr A'', ''GP'') ''Flu''
         ''legitimate'' ''output/legit_claim_0.pdf'' sample_design
         [[''Consult'', ''GP visit'', ''1'', ''800'', ''800'']] no_files) = Inr ()"
  by (simp add: claim_pdf_body_def sample_design_fields sample_logo_step dict_index_def
        sample_clinic_def draw_claim_def draw_def header_ops_def footer_ops_def contact_line_def
        draw_field_def bind_err_def
        total_amount_def getitem_def float_of_def whole_float_800 sample_env_simps save_canvas_def)

lemma logo_step_reuse:
  assumes "files w (logo_path name) = Some (ImageFile t)"
  shows "logo_step env name w = (True, w)"
  using assms by (simp add: logo_step_def Let_def ensure_logo_reuse)

lemma logo_step_regenerate:
  assumes "\<not> (\<exists>t. files w (logo_path name) = Some (ImageFile t))"
  shows "filter is_logo_generation (log (snd (logo_step env name w))) =
           filter is_logo_generation (log w) @
             [if pil_draws env (take 20 name) \<and> can_write env (logo_path name)
              then LogoGenerated name (logo_path name)
              else LogoGenerationError name
                     (if pil_draws env (take 20 name) then OSError (logo_path name)
                      else LibraryError)]"
    and "files (snd (logo_step env name w)) =
           (if pil_draws env (take 20 name) \<and> can_write env (logo_path name)
            then (files w)(logo_path name \<mapsto> ImageFile (take 20 name)) else files w)"
    and "fst (logo_step env name w) \<longleftrightarrow>
           pil_draws env (take 20 name) \<and> can_write env (logo_path name)"
proof -
  from ensure_logo_regenerate [OF assms, of env name] obtain w1 where
    w1: "files w1 = files w"
      "filter is_logo_generation (log w1) = filter is_logo_generation (log w)"
      "ensure_logo env name (logo_path name) w = snd (generate_logo env name (logo_path name) w1)"
    by blast
  have step: "logo_step env name w =
      verify_logo (logo_path name) (snd (generate_logo env name (logo_path name) w1))"
    by (simp add: logo_step_def Let_def w1(3))
  show "filter is_logo_generation (log (snd (logo_step env name w))) =
           filter is_logo_generation (log w) @
             [if pil_draws env (take 20 name) \<and> can_write env (logo_path name)
              then LogoGenerated name (logo_path name)
              else LogoGenerationError name
                     (if pil_draws env (take 20 name) then OSError (logo_path name)
                      else LibraryError)]"
    by (simp add: step generate_logo_log w1(2))
  show files: "files (snd (logo_step env name w)) =
           (if pil_draws env (take 20 name) \<and> can_write env (logo_path name)
            then (files w)(logo_path name \<mapsto> ImageFile (take 20 name)) else files w)"
    by (simp add: step generate_logo_files w1(1))
  show "fst (logo_step env name w) \<longleftrightarrow>
           pil_draws env (take 20 name) \<and> can_write env (logo_path name)"
    using assms by (simp add: logo_step_fst files)
qed

text \<open>
  Once the design and the name of the clinic are read, the call ends in one of two
  worlds: the one after the logo statements with the error logged, or that world with
  the document saved and the success logged.
\<close>

lemma generate_claim_pdf_world:
  fixes env :: "'f pyenv"
  assumes "design_fields design = Inr (pc, sc, fn)" "clinic ''name'' = Some name"
  shows "(\<exists>e. fst (claim_pdf_body env dr clinic doctor diagnosis fraud_type output_pdf design
                   billing_items w) = Inl e \<and>
              snd (generate_claim_pdf env dr clinic doctor diagnosis fraud_type output_pdf design
                   billing_items w) =
                log_event (ClaimError fraud_type e) (snd (logo_step env name w))) \<or>
         (\<exists>doc. fst (claim_pdf_body env dr clinic doctor diagnosis fraud_type output_pdf design
                   billing_items w) = Inr () \<and>
              snd (generate_claim_pdf env dr clinic doctor diagnosis fraud_type output_pdf design
                   billing_items w) =
                log_event (ClaimGenerated output_pdf)
                  (write_file output_pdf
                     (Pdf ((if fst (logo_step env name w)
                            then [DrawImage (logo_path name) 50 700 100 50] else []) @ doc))
                     (snd (logo_step env name w))))"
proof (cases rule: claim_pdf_body_cases
    [of design env dr clinic doctor diagnosis fraud_type output_pdf billing_items w])
  case (design e)
  with assms show ?thesis by simp
next
  case name
  with assms show ?thesis by simp
next
  case (drawing pc' sc' fn' name' e)
  with assms have "name' = name" by simp
  with drawing(4) show ?thesis
    by (auto simp: generate_claim_pdf_def)
next
  case (drawn pc' sc' fn' name' c)
  with assms have same: "name' = name" by simp
  from draw_claim_Inr [OF drawn(3)] obtain ops1 ops2 where
    c: "c = (if fst (logo_step env name' w) then [DrawImage (logo_path name') 50 700 100 50] else [])
          @ ops1 @ ops2"
    by blast
  show ?thesis
  proof (cases "can_write env output_pdf")
    case True
    with drawn(4) same c have
      "fst (claim_pdf_body env dr clinic doctor diagnosis fraud_type output_pdf design
                   billing_items w) = Inr ()"
      "snd (generate_claim_pdf env dr clinic doctor diagnosis fraud_type output_pdf design
                   billing_items w) =
                log_event (ClaimGenerated output_pdf)
                  (write_file output_pdf
                     (Pdf ((if fst (logo_step env name w)
                            then [DrawImage (logo_path name) 50 700 100 50] else []) @ (ops1 @ ops2)))
                     (snd (logo_step env name w)))"
      by (simp_all add: generate_claim_pdf_def save_canvas_cases)
    then show ?thesis by blast
  next
    case False
    with drawn(4) same show ?thesis
      by (auto simp: generate_claim_pdf_def save_canvas_cases)
  qed
qed

lemma sample_logo_path: "logo_path ''City Clinic'' = ''logos/logo_City Clinic.png''"
  by (simp add: logo_path_def os_path_join_def logos_dir_def)

lemma sample_clinic_name: "sample_clinic ''name'' = Some ''City Clinic''"
  by (simp add: sample_clinic_def)

lemma logo_path_eq: "logo_path name = ''logos/logo_'' @ name @ ''.png''"
  by (simp add: logo_path_def os_path_join_def logos_dir_def)

text \<open>
  What the call does to the image and document files of the store: a path keeps its
  content, or it is the destination and holds a saved document, or it is the logo path
  of the clinic and holds the freshly generated image.
\<close>

lemma generate_claim_pdf_frame:
  fixes env :: "'f pyenv"
  shows "files (snd (generate_claim_pdf env dr clinic doctor diagnosis fraud_type output_pdf design
            billing_items w)) p = files w p \<or>
         (p = output_pdf \<and>
            (\<exists>doc. files (snd (generate_claim_pdf env dr clinic doctor diagnosis fraud_type
               output_pdf design billing_items w)) p = Some (Pdf doc))) \<or>
         (\<exists>name. clinic ''name'' = Some name \<and> p = logo_path name \<and>
            files (snd (generate_claim_pdf env dr clinic doctor diagnosis fraud_type output_pdf
              design billing_items w)) p = Some (ImageFile (take 20 name)))"
proof (cases "claim_pdf_body env dr clinic doctor diagnosis fraud_type output_pdf design
            billing_items w")
  case (Pair res w')
  show ?thesis
  proof (cases res)
    case (Inl e)
    with Pair have body: "claim_pdf_body env dr clinic doctor diagnosis fraud_type output_pdf design
            billing_items w = (Inl e, w')" by simp
    from claim_pdf_body_failed_world [OF body] logo_step_files
    have "files w' p = files w p \<or>
         (\<exists>name. clinic ''name'' = Some name \<and> p = logo_path name \<and>
            files w' p = Some (ImageFile (take 20 name)))"
      by fastforce
    then show ?thesis
      unfolding generate_claim_pdf_failed [OF body] by auto
  next
    case (Inr u)
    with Pair have body: "claim_pdf_body env dr clinic doctor diagnosis fraud_type output_pdf design
            billing_items w = (Inr u, w')" by simp
    from claim_pdf_body_done_world [OF body] obtain name c where
      name: "clinic ''name'' = Some name" and
      w': "w' = log_event (ClaimGenerated output_pdf)
                  (write_file output_pdf (Pdf c) (snd (logo_step env name w)))"
      by blast
    from logo_step_files [of env name w p] name w' show ?thesis
      by (auto simp: generate_claim_pdf_done [OF body])
  qed
qed




section \<open>Properties of the design store and of the input files\<close>

lemma random_choice_member:
  "xs \<noteq> [] \<Longrightarrow> \<exists>x \<in> set xs. random_choice xs r = Inr x"
  by (simp add: random_choice_def)

lemma new_style_from_palettes:
  "\<exists>primary secondary font.
     random_choice primary_palette a = Inr primary \<and>
     random_choice secondary_palette b = Inr secondary \<and>
     random_choice font_palette c = Inr font \<and>
     palette_style [''primary_color'' \<mapsto> primary, ''secondary_color'' \<mapsto> secondary,
                    ''font'' \<mapsto> font]"
proof -
  obtain primary where p: "primary \<in> set primary_palette"
    "random_choice primary_palette a = Inr primary"
    using random_choice_member [of primary_palette a] by (auto simp: primary_palette_def)
  obtain secondary where s: "secondary \<in> set secondary_palette"
    "random_choice secondary_palette b = Inr secondary"
    using random_choice_member [of secondary_palette b] by (auto simp: secondary_palette_def)
  obtain font where f: "font \<in> set font_palette" "random_choice font_palette c = Inr font"
    using random_choice_member [of font_palette c] by (auto simp: font_palette_def)
  have "palette_style [''primary_color'' \<mapsto> primary, ''secondary_color'' \<mapsto> secondary,
                    ''font'' \<mapsto> font]"
    using p(1) s(1) f(1) by (simp add: palette_style_def)
  with p(2) s(2) f(2) show ?thesis by blast
qed

lemma create_designs_result:
  assumes "list_all (\<lambda>clinic. clinic ''name'' \<noteq> None) clinics"
    and "\<forall>n st. designs n = Some st \<longrightarrow> palette_style st"
  shows "\<exists>created. create_designs rnd k clinics designs = Inr created \<and>
           dom created = dom designs \<union> {n. \<exists>clinic \<in> set clinics. clinic ''name'' = Some n} \<and>
           (\<forall>n st. created n = Some st \<longrightarrow> palette_style st)"
  using assms
proof (induction clinics arbitrary: k designs)
  case Nil
  then show ?case by simp
next
  case (Cons clinic clinics)
  from Cons.prems(1) obtain name where name: "clinic ''name'' = Some name"
    and rest: "list_all (\<lambda>clinic. clinic ''name'' \<noteq> None) clinics"
    by auto
  from new_style_from_palettes [of "rnd k" "rnd (k + 1)" "rnd (k + 2)"]
  obtain primary secondary font where
    draws: "random_choice primary_palette (rnd k) = Inr primary"
      "random_choice secondary_palette (rnd (k + 1)) = Inr secondary"
      "random_choice font_palette (rnd (k + 2)) = Inr font" and
    style: "palette_style [''primary_color'' \<mapsto> primary, ''secondary_color'' \<mapsto> secondary,
                    ''font'' \<mapsto> font]"
    by blast
  let ?next = "designs(name \<mapsto> [''primary_color'' \<mapsto> primary, ''secondary_color'' \<mapsto> secondary,
                    ''font'' \<mapsto> font])"
  have step: "create_designs rnd k (clinic # clinics) designs =
      create_designs rnd (k + 3) clinics ?next"
    using name draws by (simp add: dict_index_def bind_err_simps)
  from Cons.prems(2) style have inv: "\<forall>n st. ?next n = Some st \<longrightarrow> palette_style st"
    by auto
  from Cons.IH [OF rest inv, of "k + 3"] obtain created where
    created: "create_designs rnd (k + 3) clinics ?next = Inr created"
      "dom created = dom ?next \<union> {n. \<exists>clinic \<in> set clinics. clinic ''name'' = Some n}"
      "\<forall>n st. created n = Some st \<longrightarrow> palette_style st"
    by blast
  have "dom ?next \<union> {n. \<exists>clinic \<in> set clinics. clinic ''name'' = Some n} =
      dom designs \<union> {n. \<exists>c \<in> set (clinic # clinics). c ''name'' = Some n}"
    using name by auto
  with created step show ?case by simp
qed






section \<open>Properties of the scrapers\<close>

lemma write_rows_all:
  "list_all (\<lambda>detail. set (map fst detail) \<subseteq> set fieldnames) details \<Longrightarrow>
   write_rows fieldnames details written =
     (written @ map (\<lambda>detail. map (\<lambda>key. case map_of detail key of
                               None \<Rightarrow> []
                             | Some None \<Rightarrow> []
                             | Some (Some v) \<Rightarrow> v) fieldnames) details, None)"
proof (induction details arbitrary: written)
  case Nil
  show ?case by simp
next
  case (Cons detail details)
  from Cons.prems have "\<not> list_ex (\<lambda>key. key \<notin> set fieldnames) (map fst detail)"
    by (auto simp: list_ex_iff)
  then have "dict_to_list fieldnames detail =
      Inr (map (\<lambda>key. case map_of detail key of
                               None \<Rightarrow> []
                             | Some None \<Rightarrow> []
                             | Some (Some v) \<Rightarrow> v) fieldnames)"
    by (simp add: dict_to_list_def)
  with Cons show ?case by simp
qed

section \<open>Properties of the batch\<close>

lemma digit_char_inj: "a < 10 \<Longrightarrow> b < 10 \<Longrightarrow> digit_char a = digit_char b \<Longrightarrow> a = b"
proof -
  assume a: "a < 10" and b: "b < 10" and eq: "digit_char a = digit_char b"
  from eq have "(of_char (char_of (48 + a)) :: nat) = of_char (char_of (48 + b))"
    by simp
  then have "(48 + a) mod 256 = (48 + b) mod 256"
    by simp
  with a b show "a = b" by simp
qed

lemma str_nat_nonempty: "str_nat n \<noteq> []"
  by (subst str_nat.simps) simp

lemma str_nat_last: "last (str_nat n) = digit_char (n mod 10)"
  by (subst str_nat.simps) simp

lemma str_nat_butlast: "butlast (str_nat n) = (if n < 10 then [] else str_nat (n div 10))"
  by (subst str_nat.simps) simp

lemma str_nat_inj: "str_nat n = str_nat m \<Longrightarrow> n = m"
proof (induction n arbitrary: m rule: less_induct)
  case (less n)
  from less.prems have l: "digit_char (n mod 10) = digit_char (m mod 10)"
    using str_nat_last [of n] str_nat_last [of m] by simp
  then have mod: "n mod 10 = m mod 10"
    by (intro digit_char_inj) simp_all
  from less.prems have b: "(if n < 10 then [] else str_nat (n div 10)) =
      (if m < 10 then [] else str_nat (m div 10))"
    using str_nat_butlast [of n] str_nat_butlast [of m] by simp
  show ?case
  proof (cases "n < 10")
    case True
    with b have "m < 10" using str_nat_nonempty [of "m div 10"] by (auto split: if_splits)
    with True mod show ?thesis by simp
  next
    case False
    with b have m: "\<not> m < 10" using str_nat_nonempty [of "n div 10"] by (auto split: if_splits)
    with False b have "str_nat (n div 10) = str_nat (m div 10)" by simp
    moreover from False have "n div 10 < n" by simp
    ultimately have "n div 10 = m div 10" by (rule less.IH [rotated])
    with mod show ?thesis
      by (metis div_mult_mod_eq)
  qed
qed

lemma claim_path_eq: "claim_path (c # file_prefix) i =
    ''output/'' @ (c # file_prefix) @ str_nat i @ ''.pdf''" if "c \<noteq> CHR ''/''"
  using that by (simp add: claim_path_def os_path_join_def output_dir_def)

lemma claim_path_inj:
  assumes "c \<noteq> CHR ''/''"
  shows "claim_path (c # file_prefix) i = claim_path (c # file_prefix) j \<longleftrightarrow> i = j"
  using assms str_nat_inj [of i j] by (auto simp: claim_path_eq)

lemma legit_fraud_paths_differ:
  "claim_path ''legit_claim_'' i \<noteq> claim_path ''fraud_claim_'' j"
  "claim_path ''fraud_claim_'' j \<noteq> claim_path ''legit_claim_'' i"
  by (simp_all add: claim_path_eq)

lemma claim_path_not_logo:
  "c \<noteq> CHR ''/'' \<Longrightarrow> claim_path (c # file_prefix) i \<noteq> logo_path name"
  by (simp add: claim_path_eq logo_path_eq)

text \<open>What a selection loop adds to the futures: at most one task for each slot, each
  the task of a slot of the loop.\<close>

lemma submit_slots_adds:
  "submit_slots slot slots futures = (futures', err) \<Longrightarrow>
   \<exists>new. futures' = futures @ new \<and> length new \<le> length slots \<and>
         (\<forall>t \<in> set new. \<exists>i \<in> set slots. slot i = Inr (Some t))"
proof (induction slots arbitrary: futures)
  case Nil
  then show ?case by simp
next
  case (Cons i slots)
  show ?case
  proof (cases "slot i")
    case (Inl e)
    with Cons.prems show ?thesis by simp
  next
    case (Inr answer)
    show ?thesis
    proof (cases answer)
      case None
      with Inr Cons.prems have "submit_slots slot slots futures = (futures', err)" by simp
      from Cons.IH [OF this] obtain new where
        "futures' = futures @ new" "length new \<le> length slots"
        "\<forall>t \<in> set new. \<exists>i \<in> set slots. slot i = Inr (Some t)" by blast
      then have "futures' = futures @ new \<and> length new \<le> length (i # slots) \<and>
         (\<forall>t \<in> set new. \<exists>j \<in> set (i # slots). slot j = Inr (Some t))"
        by auto
      then show ?thesis by blast
    next
      case (Some t)
      with Inr Cons.prems have "submit_slots slot slots (futures @ [t]) = (futures', err)"
        by simp
      from Cons.IH [OF this] obtain new where
        new: "futures' = (futures @ [t]) @ new" "length new \<le> length slots"
        "\<forall>t \<in> set new. \<exists>i \<in> set slots. slot i = Inr (Some t)" by blast
      from new Inr Some have "futures' = futures @ (t # new) \<and>
         length (t # new) \<le> length (i # slots) \<and>
         (\<forall>u \<in> set (t # new). \<exists>j \<in> set (i # slots). slot j = Inr (Some u))"
        by auto
      then show ?thesis by blast
    qed
  qed
qed

lemma claim_slot_task:
  assumes "claim_slot file_prefix kind rnd clinics doctors sd designs billing i = Inr (Some t)"
  shows "task_output t = claim_path file_prefix i \<and> task_kind t = kind \<and>
         (\<exists>doctor. random_choice doctors (fst (snd (rnd i))) = Inr doctor \<and>
            task_doctor t = doctor \<and> map_of sd (snd doctor) \<noteq> None)"
proof -
  obtain r1 r2 r3 where r: "rnd i = (r1, r2, r3)" by (cases "rnd i") auto
  from assms r obtain clinic doctor where
    doctor: "random_choice doctors r2 = Inr doctor" and
    rest: "(case map_of sd (snd doctor) of
             None \<Rightarrow> Inr None
           | Some diagnoses \<Rightarrow>
               bind_err (random_choice diagnoses r3) (\<lambda>diagnosis.
               bind_err (get_billing_items_for_diagnosis diagnosis billing)
                 (\<lambda>billing_items.
               bind_err (dict_index clinic ''name'') (\<lambda>name.
               bind_err (dict_index designs name) (\<lambda>design.
                 Inr (Some \<lparr>task_clinic = clinic, task_doctor = doctor,
                            task_diagnosis = diagnosis, task_kind = kind,
                            task_output = claim_path file_prefix i,
                            task_design = design, task_billing = billing_items\<rparr>)))))) =
          Inr (Some t)"
    by (auto simp: claim_slot_def bind_err_Inr_iff)
  from rest obtain diagnoses where present: "map_of sd (snd doctor) = Some diagnoses"
    by (cases "map_of sd (snd doctor)") auto
  with rest obtain diagnosis billing_items design where
    "t = \<lparr>task_clinic = clinic, task_doctor = doctor,
                            task_diagnosis = diagnosis, task_kind = kind,
                            task_output = claim_path file_prefix i,
                            task_design = design, task_billing = billing_items\<rparr>"
    by (auto simp: bind_err_Inr_iff)
  with doctor present r show ?thesis by simp
qed

lemma claim_slot_skipped:
  assumes "random_choice doctors (fst (snd (rnd i))) = Inr doctor"
    and "map_of sd (snd doctor) = None"
  shows "claim_slot file_prefix kind rnd clinics doctors sd designs billing i \<noteq> Inr (Some t)"
proof
  assume "claim_slot file_prefix kind rnd clinics doctors sd designs billing i = Inr (Some t)"
  from claim_slot_task [OF this] assms show False by auto
qed

lemma claim_slot_skipped_value:
  assumes "clinics \<noteq> []"
    and "random_choice doctors (fst (snd (rnd i))) = Inr doctor"
    and "map_of sd (snd doctor) = None"
  shows "claim_slot file_prefix kind rnd clinics doctors sd designs billing i = Inr None"
proof -
  obtain r1 r2 r3 where r: "rnd i = (r1, r2, r3)" by (cases "rnd i") auto
  from assms(1) obtain clinic where "random_choice clinics r1 = Inr clinic"
    by (auto simp: random_choice_def)
  with assms(2,3) r show ?thesis
    by (simp add: claim_slot_def bind_err_simps)
qed

text \<open>A run of tasks leaves alone every path that is neither the destination of one of
  them nor the logo path of one of their clinics.\<close>

lemma run_tasks_frame:
  fixes env :: "'f pyenv"
  assumes "\<forall>t \<in> set ts. p \<noteq> task_output t \<and> (\<forall>name. p \<noteq> logo_path name)"
  shows "files (run_tasks env fake k ts w) p = files w p"
  using assms
proof (induction ts arbitrary: k w)
  case Nil
  show ?case by simp
next
  case (Cons t ts)
  from Cons.prems have p: "p \<noteq> task_output t" "\<And>name. p \<noteq> logo_path name" by auto
  from generate_claim_pdf_frame [of env "fake k" "task_clinic t" "task_doctor t"
      "task_diagnosis t" "task_kind t" "task_output t" "task_design t" "task_billing t" w p] p
  have "files (run_task env (fake k) t w) p = files w p"
    by (auto simp: run_task_def)
  moreover from Cons.prems have "\<forall>t \<in> set ts. p \<noteq> task_output t \<and> (\<forall>name. p \<noteq> logo_path name)"
    by simp
  ultimately show ?case using Cons.IH [of "Suc k" "run_task env (fake k) t w"] by simp
qed

lemma submit_batch_tasks:
  assumes "submit_batch rnd clinics doctors sd designs billing n_legit n_fraud = (futures, err)"
  shows "\<exists>legit fraud. futures = legit @ fraud \<and>
           length legit \<le> n_legit \<and> length fraud \<le> n_fraud \<and>
           (\<forall>t \<in> set legit. \<exists>i < n_legit.
              claim_slot ''legit_claim_'' ''legitimate'' (rnd ''legitimate'') clinics doctors sd
                designs billing i = Inr (Some t)) \<and>
           (\<forall>t \<in> set fraud. \<exists>i < n_fraud.
              claim_slot ''fraud_claim_'' ''fraudulent'' (rnd ''fraudulent'') clinics doctors sd
                designs billing i = Inr (Some t))"
proof -
  let ?legit = "claim_slot ''legit_claim_'' ''legitimate'' (rnd ''legitimate'') clinics doctors sd
                designs billing"
  let ?fraud = "claim_slot ''fraud_claim_'' ''fraudulent'' (rnd ''fraudulent'') clinics doctors sd
                designs billing"
  obtain fl el where first: "submit_slots ?legit [0..<n_legit] [] = (fl, el)"
    by (cases "submit_slots ?legit [0..<n_legit] []") auto
  from submit_slots_adds [OF first] have legit: "length fl \<le> n_legit"
    "\<forall>t \<in> set fl. \<exists>i < n_legit. ?legit i = Inr (Some t)"
    by (auto simp: Bex_def)
  show ?thesis
  proof (cases el)
    case (Some e)
    with first assms have "futures = fl @ []"
      by (simp add: submit_batch_def)
    with legit show ?thesis by (intro exI [of _ fl] exI [of _ "[]"]) simp
  next
    case None
    with first assms have second: "submit_slots ?fraud [0..<n_fraud] fl = (futures, err)"
      by (simp add: submit_batch_def)
    from submit_slots_adds [OF second] obtain new where
      new: "futures = fl @ new" "length new \<le> n_fraud"
      "\<forall>t \<in> set new. \<exists>i < n_fraud. ?fraud i = Inr (Some t)"
      by (auto simp: Bex_def)
    with legit show ?thesis by (intro exI [of _ fl] exI [of _ new]) simp
  qed
qed

lemma sample_skipped_doctor:
  "random_choice sample_doctors (fst (snd (sample_rnd ''legitimate'' 1))) =
     Inr (''Dr B'', ''Surgeon'')"
  "map_of sample_specialties (snd (''Dr B'', ''Surgeon'')) = None"
  by (simp_all add: random_choice_def sample_doctors_def sample_rnd_def sample_specialties_def)

lemma sample_batch_outputs:
  "map task_output (fst (submit_batch sample_rnd [sample_clinic] sample_doctors sample_specialties
        sample_designs sample_billing 2 1)) =
     [claim_path ''legit_claim_'' 0, claim_path ''fraud_claim_'' 0]"
  by code_simp

text \<open>
  Claim C3. For every clinic record, doctor pair, diagnosis, kind tag, destination path,
  style record and billing-line list, and whatever the libraries and the file system do,
  \<open>generate_claim_pdf\<close> returns without an exception. When the body of its \<open>try\<close>
  fails with an error, that error is the last line logged, the destination holds no
  document it did not hold before, and the only file that can have changed is the logo of
  the clinic, freshly generated.
\<close>

theorem generate_claim_pdf_catches_every_failure:
  fixes env :: "'f pyenv"
  shows
  "fst (generate_claim_pdf env dr clinic doctor diagnosis fraud_type output_pdf design
          billing_items w) = Inr () \<and>
   (\<forall>e. fst (claim_pdf_body env dr clinic doctor diagnosis fraud_type output_pdf design
              billing_items w) = Inl e \<longrightarrow>
      (\<exists>evs. log (snd (generate_claim_pdf env dr clinic doctor diagnosis fraud_type output_pdf
                         design billing_items w)) = log w @ evs @ [ClaimError fraud_type e]) \<and>
      (\<forall>doc. files (snd (generate_claim_pdf env dr clinic doctor diagnosis fraud_type output_pdf
                         design billing_items w)) output_pdf = Some (Pdf doc) \<longrightarrow>
             files w output_pdf = Some (Pdf doc)) \<and>
      (\<forall>p. files (snd (generate_claim_pdf env dr clinic doctor diagnosis fraud_type output_pdf
                         design billing_items w)) p = files w p \<or>
           (\<exists>name. clinic ''name'' = Some name \<and> p = logo_path name \<and>
              files (snd (generate_claim_pdf env dr clinic doctor diagnosis fraud_type output_pdf
                         design billing_items w)) p = Some (ImageFile (take 20 name)))))"
proof (intro conjI allI impI)
  show "fst (generate_claim_pdf env dr clinic doctor diagnosis fraud_type output_pdf design
          billing_items w) = Inr ()"
    by (auto simp: generate_claim_pdf_def split: prod.splits sum.splits)
next
  fix e
  assume "fst (claim_pdf_body env dr clinic doctor diagnosis fraud_type output_pdf design
              billing_items w) = Inl e"
  then obtain w' where body: "claim_pdf_body env dr clinic doctor diagnosis fraud_type output_pdf
      design billing_items w = (Inl e, w')"
    by (cases "claim_pdf_body env dr clinic doctor diagnosis fraud_type output_pdf
      design billing_items w") simp
  note gen = generate_claim_pdf_failed [OF body]
  from claim_pdf_body_failed_world [OF body]
  have log': "\<exists>evs. log w' = log w @ evs"
    and files': "\<And>p. files w' p = files w p \<or>
           (\<exists>name. clinic ''name'' = Some name \<and> p = logo_path name \<and>
              files w' p = Some (ImageFile (take 20 name)))"
    using logo_step_log logo_step_files by fastforce+
  from log' show "\<exists>evs. log (snd (generate_claim_pdf env dr clinic doctor diagnosis fraud_type
      output_pdf design billing_items w)) = log w @ evs @ [ClaimError fraud_type e]"
    by (auto simp: gen)
  from files' show "\<And>p. files (snd (generate_claim_pdf env dr clinic doctor diagnosis fraud_type
      output_pdf design billing_items w)) p = files w p \<or>
           (\<exists>name. clinic ''name'' = Some name \<and> p = logo_path name \<and>
              files (snd (generate_claim_pdf env dr clinic doctor diagnosis fraud_type output_pdf
                         design billing_items w)) p = Some (ImageFile (take 20 name)))"
    by (simp add: gen)
  fix doc
  assume "files (snd (generate_claim_pdf env dr clinic doctor diagnosis fraud_type output_pdf
                         design billing_items w)) output_pdf = Some (Pdf doc)"
  then have "files w' output_pdf = Some (Pdf doc)" by (simp add: gen)
  with files' [of output_pdf] show "files w output_pdf = Some (Pdf doc)" by auto
qed

theorem generate_claim_pdf_catches_every_failure_witness:
  "fst (claim_pdf_body sample_env sample_draws sample_clinic (''Dr A'', ''GP'') ''Flu''
         ''legitimate'' ''output/legit_claim_0.pdf'' sample_design
         [[''Consult'', ''GP visit'', ''1'', ''800'']] no_files) = Inl IndexError \<and>
   fst (generate_claim_pdf sample_env sample_draws sample_clinic (''Dr A'', ''GP'') ''Flu''
         ''legitimate'' ''output/legit_claim_0.pdf'' sample_design
         [[''Consult'', ''GP visit'', ''1'', ''800'']] no_files) = Inr () \<and>
   (\<forall>doc. files (snd (generate_claim_pdf sample_env sample_draws sample_clinic (''Dr A'', ''GP'')
         ''Flu'' ''legitimate'' ''output/legit_claim_0.pdf'' sample_design
         [[''Consult'', ''GP visit'', ''1'', ''800'']] no_files)) ''output/legit_claim_0.pdf'' \<noteq>
       Some (Pdf doc))"
proof -
  have failed: "fst (claim_pdf_body sample_env sample_draws sample_clinic (''Dr A'', ''GP'') ''Flu''
         ''legitimate'' ''output/legit_claim_0.pdf'' sample_design
         [[''Consult'', ''GP visit'', ''1'', ''800'']] no_files) = Inl IndexError"
    by (simp add: claim_pdf_body_def sample_design_fields sample_logo_step dict_index_def
        sample_clinic_def draw_claim_def draw_def header_ops_def draw_field_def bind_err_def
        total_amount_def getitem_def sample_env_simps)
  have empty: "files no_files ''output/legit_claim_0.pdf'' = None"
    by (simp add: no_files_def)
  from generate_claim_pdf_catches_every_failure [of sample_env sample_draws sample_clinic
      "(''Dr A'', ''GP'')" "''Flu''" "''legitimate''" "''output/legit_claim_0.pdf''" sample_design
      "[[''Consult'', ''GP visit'', ''1'', ''800'']]" no_files] failed empty
  show ?thesis by auto
qed

text \<open>
  Claim C2. Whenever the body of \<open>generate_claim_pdf\<close> completes, every billing line has a
  fifth field that \<open>float()\<close> reads, the document saved at the destination shows at the
  place of the total exactly one text, \<open>Total Amount: Rs\<close> followed by the sum of these
  parsed fields in the format \<open>.2f\<close>, and the total depends on the fifth fields only:
  two lists of lines that agree on them have the same total, whatever their quantities
  and unit prices say.
\<close>

theorem displayed_total_is_sum_of_fifth_fields:
  fixes env :: "'f pyenv"
  assumes "fst (claim_pdf_body env dr clinic doctor diagnosis fraud_type output_pdf design
             billing_items w) = Inr ()"
  shows "(\<exists>xs doc.
            list_all (\<lambda>item. 4 < length item) billing_items \<and>
            map (\<lambda>item. py_float env (item ! 4)) billing_items = map Some xs \<and>
            files (snd (generate_claim_pdf env dr clinic doctor diagnosis fraud_type output_pdf
                     design billing_items w)) output_pdf = Some (Pdf doc) \<and>
            (\<forall>s. DrawString 400 370 s \<in> set doc \<longleftrightarrow>
                  s = ''Total Amount: Rs '' @ py_fmt2 env (py_sum env xs))) \<and>
         (\<forall>items'. map (\<lambda>item. getitem item 4) items' = map (\<lambda>item. getitem item 4) billing_items
            \<longrightarrow> total_amount env items' = total_amount env billing_items)"
proof (intro conjI allI impI)
  from assms obtain w' where body: "claim_pdf_body env dr clinic doctor diagnosis fraud_type
      output_pdf design billing_items w = (Inr (), w')"
    by (cases "claim_pdf_body env dr clinic doctor diagnosis fraud_type
      output_pdf design billing_items w") simp
  from claim_pdf_body_done_world [OF body] obtain pc sc fn name c where
    drawn: "draw_claim env dr clinic doctor diagnosis pc sc fn billing_items (logo_path name)
             (fst (logo_step env name w)) = Inr c" and
    w': "w' = log_event (ClaimGenerated output_pdf)
                  (write_file output_pdf (Pdf c) (snd (logo_step env name w)))"
    by blast
  from draw_claim_Inr [OF drawn] obtain ops1 xs ops2 where
    ops1: "header_ops dr clinic doctor diagnosis pc sc fn billing_items = map Inr ops1" and
    xs: "parse_totals env billing_items = Inr xs" and
    ops2: "footer_ops env clinic pc fn (py_sum env xs) = map Inr ops2" and
    c: "c = (if fst (logo_step env name w) then [DrawImage (logo_path name) 50 700 100 50] else [])
          @ ops1 @ ops2"
    by blast
  have total: "DrawString 400 370 s \<in> set c \<longleftrightarrow>
      s = ''Total Amount: Rs '' @ py_fmt2 env (py_sum env xs)" for s
  proof -
    have "DrawString 400 370 s \<in> set c \<longleftrightarrow> DrawString 400 370 s \<in> set ops2"
      using header_ops_no_total [OF ops1, of s] by (simp add: c)
    then show ?thesis
      by (simp only: footer_ops_total [OF ops2, of s])
  qed
  have saved: "files (snd (generate_claim_pdf env dr clinic doctor diagnosis fraud_type output_pdf
                     design billing_items w)) output_pdf = Some (Pdf c)"
    by (simp add: generate_claim_pdf_done [OF body] w')
  from xs have fifth: "list_all (\<lambda>item. 4 < length item) billing_items \<and>
    map (\<lambda>item. py_float env (item ! 4)) billing_items = map Some xs"
    by (simp add: parse_totals_Inr_iff)
  show "\<exists>xs doc.
            list_all (\<lambda>item. 4 < length item) billing_items \<and>
            map (\<lambda>item. py_float env (item ! 4)) billing_items = map Some xs \<and>
            files (snd (generate_claim_pdf env dr clinic doctor diagnosis fraud_type output_pdf
                     design billing_items w)) output_pdf = Some (Pdf doc) \<and>
            (\<forall>s. DrawString 400 370 s \<in> set doc \<longleftrightarrow>
                  s = ''Total Amount: Rs '' @ py_fmt2 env (py_sum env xs))"
  proof (intro exI conjI allI)
    show "list_all (\<lambda>item. 4 < length item) billing_items" using fifth by simp
    show "map (\<lambda>item. py_float env (item ! 4)) billing_items = map Some xs" using fifth by simp
    show "files (snd (generate_claim_pdf env dr clinic doctor diagnosis fraud_type output_pdf
                     design billing_items w)) output_pdf = Some (Pdf c)" by (rule saved)
    show "DrawString 400 370 s \<in> set c \<longleftrightarrow>
                  s = ''Total Amount: Rs '' @ py_fmt2 env (py_sum env xs)" for s by (rule total)
  qed
next
  fix items'
  assume "map (\<lambda>item. getitem item 4) items' = map (\<lambda>item. getitem item 4) billing_items"
  then have "parse_totals env items' = parse_totals env billing_items"
    by (rule parse_totals_fifth_only)
  then show "total_amount env items' = total_amount env billing_items"
    by (simp add: total_amount_def)
qed

theorem displayed_total_is_sum_of_fifth_fields_witness:
  "fst (claim_pdf_body sample_env sample_draws sample_clinic (''Dr A'', ''GP'') ''Flu''
         ''legitimate'' ''output/legit_claim_0.pdf'' sample_design
         [[''Consult'', ''GP visit'', ''1'', ''800'', ''800'']] no_files) = Inr () \<and>
   (\<exists>doc. files (snd (generate_claim_pdf sample_env sample_draws sample_clinic (''Dr A'', ''GP'')
         ''Flu'' ''legitimate'' ''output/legit_claim_0.pdf'' sample_design
         [[''Consult'', ''GP visit'', ''1'', ''800'', ''800'']] no_files))
         ''output/legit_claim_0.pdf'' = Some (Pdf doc) \<and>
      DrawString 400 370 ''Total Amount: Rs 800.00'' \<in> set doc)"
proof -
  note rendered = sample_claim_rendered
  from displayed_total_is_sum_of_fifth_fields [OF rendered] obtain xs doc where
    xs: "map (\<lambda>item. py_float sample_env (item ! 4))
           [[''Consult'', ''GP visit'', ''1'', ''800'', ''800'']] = map Some xs" and
    doc: "files (snd (generate_claim_pdf sample_env sample_draws sample_clinic (''Dr A'', ''GP'')
         ''Flu'' ''legitimate'' ''output/legit_claim_0.pdf'' sample_design
         [[''Consult'', ''GP visit'', ''1'', ''800'', ''800'']] no_files))
         ''output/legit_claim_0.pdf'' = Some (Pdf doc)" and
    shown: "\<And>s. DrawString 400 370 s \<in> set doc \<longleftrightarrow>
       s = ''Total Amount: Rs '' @ py_fmt2 sample_env (py_sum sample_env xs)"
    by blast
  from xs have "xs = [800]"
    by (cases xs) (simp_all add: sample_env_simps whole_float_800)
  then have "''Total Amount: Rs '' @ py_fmt2 sample_env (py_sum sample_env xs) =
      ''Total Amount: Rs 800.00''"
    by (simp add: sample_env_simps str_int_800)
  with shown have "DrawString 400 370 ''Total Amount: Rs 800.00'' \<in> set doc"
    by simp
  with rendered doc show ?thesis by blast
qed

text \<open>
  Claim C7. Let the design record and the name of the clinic be readable, so that the
  logo statements of \<open>generate_claim_pdf\<close> are reached. When the logo file exists and
  PIL verifies it, \<open>generate_logo\<close> does not run (no generation line is logged), the
  file stays as it was and a saved document starts with that image. When the file is
  missing or fails the verification, \<open>generate_logo\<close> runs exactly once, before anything
  is drawn; when PIL draws the text and the path can be written, the file then holds the
  new image and a saved document starts with it.
\<close>

theorem logo_reused_or_regenerated:
  fixes env :: "'f pyenv"
  assumes "design_fields design = Inr (pc, sc, fn)" and "clinic ''name'' = Some name"
    and "generate_claim_pdf env dr clinic doctor diagnosis fraud_type output_pdf design
           billing_items w = (r, w')"
  shows
    "((\<exists>t. files w (logo_path name) = Some (ImageFile t)) \<longrightarrow>
        filter is_logo_generation (log w') = filter is_logo_generation (log w) \<and>
        (output_pdf \<noteq> logo_path name \<longrightarrow> files w' (logo_path name) = files w (logo_path name)) \<and>
        (fst (claim_pdf_body env dr clinic doctor diagnosis fraud_type output_pdf design
                billing_items w) = Inr () \<longrightarrow>
           (\<exists>doc. files w' output_pdf =
              Some (Pdf (DrawImage (logo_path name) 50 700 100 50 # doc))))) \<and>
     (\<not> (\<exists>t. files w (logo_path name) = Some (ImageFile t)) \<longrightarrow>
        filter is_logo_generation (log w') =
          filter is_logo_generation (log w) @
            [if pil_draws env (take 20 name) \<and> can_write env (logo_path name)
             then LogoGenerated name (logo_path name)
             else LogoGenerationError name
                    (if pil_draws env (take 20 name) then OSError (logo_path name)
                     else LibraryError)] \<and>
        (pil_draws env (take 20 name) \<and> can_write env (logo_path name) \<longrightarrow>
           (output_pdf \<noteq> logo_path name \<longrightarrow>
              files w' (logo_path name) = Some (ImageFile (take 20 name))) \<and>
           (fst (claim_pdf_body env dr clinic doctor diagnosis fraud_type output_pdf design
                   billing_items w) = Inr () \<longrightarrow>
              (\<exists>doc. files w' output_pdf =
                 Some (Pdf (DrawImage (logo_path name) 50 700 100 50 # doc))))))"
proof -
  let ?body = "claim_pdf_body env dr clinic doctor diagnosis fraud_type output_pdf design
                billing_items w"
  let ?step = "logo_step env name w"
  from assms(3) have w': "snd (generate_claim_pdf env dr clinic doctor diagnosis fraud_type
      output_pdf design billing_items w) = w'"
    by simp
  from generate_claim_pdf_world [where clinic = clinic and design = design and name = name
      and env = env and dr = dr and doctor = doctor and diagnosis = diagnosis
      and fraud_type = fraud_type and output_pdf = output_pdf and billing_items = billing_items
      and w = w, OF assms(1) assms(2)]
  have ends: "(\<exists>e. fst ?body = Inl e \<and> w' = log_event (ClaimError fraud_type e) (snd ?step)) \<or>
      (\<exists>doc. fst ?body = Inr () \<and>
         w' = log_event (ClaimGenerated output_pdf)
                (write_file output_pdf
                   (Pdf ((if fst ?step then [DrawImage (logo_path name) 50 700 100 50] else [])
                      @ doc)) (snd ?step)))"
    unfolding w' .
  then have gen: "filter is_logo_generation (log w') = filter is_logo_generation (log (snd ?step))"
    by auto
  from ends have logo: "output_pdf \<noteq> logo_path name \<Longrightarrow>
      files w' (logo_path name) = files (snd ?step) (logo_path name)"
    by auto
  from ends have doc: "fst ?body = Inr () \<Longrightarrow> fst ?step \<Longrightarrow>
      \<exists>doc. files w' output_pdf = Some (Pdf (DrawImage (logo_path name) 50 700 100 50 # doc))"
    by auto
  show ?thesis
  proof (cases "\<exists>t. files w (logo_path name) = Some (ImageFile t)")
    case True
    then obtain t where "files w (logo_path name) = Some (ImageFile t)" by blast
    then have "?step = (True, w)" by (rule logo_step_reuse)
    with gen logo doc True show ?thesis by simp
  next
    case False
    note regen = logo_step_regenerate [OF False, of env]
    from gen regen(1) have "filter is_logo_generation (log w') =
          filter is_logo_generation (log w) @
            [if pil_draws env (take 20 name) \<and> can_write env (logo_path name)
             then LogoGenerated name (logo_path name)
             else LogoGenerationError name
                    (if pil_draws env (take 20 name) then OSError (logo_path name)
                     else LibraryError)]"
      by simp
    moreover have "files w' (logo_path name) = Some (ImageFile (take 20 name))"
      if "pil_draws env (take 20 name) \<and> can_write env (logo_path name)"
        "output_pdf \<noteq> logo_path name"
      using logo [OF that(2)] regen(2) that(1) by simp
    moreover have "\<exists>doc. files w' output_pdf =
                 Some (Pdf (DrawImage (logo_path name) 50 700 100 50 # doc))"
      if "pil_draws env (take 20 name) \<and> can_write env (logo_path name)" "fst ?body = Inr ()"
      using doc [OF that(2)] regen(3) that(1) by simp
    ultimately show ?thesis using False by blast
  qed
qed

theorem logo_reused_or_regenerated_witness:
  "design_fields sample_design = Inr (''#1f77b4'', ''#aec7e8'', ''Courier'') \<and>
   sample_clinic ''name'' = Some ''City Clinic'' \<and>
   filter is_logo_generation (log (snd (generate_claim_pdf sample_env sample_draws sample_clinic
       (''Dr A'', ''GP'') ''Flu'' ''legitimate'' ''output/legit_claim_0.pdf'' sample_design
       [[''Consult'', ''GP visit'', ''1'', ''800'', ''800'']]
       \<lparr>files = [''logos/logo_City Clinic.png'' \<mapsto> ImageFile ''old logo''], log = []\<rparr>))) = [] \<and>
   files (snd (generate_claim_pdf sample_env sample_draws sample_clinic
       (''Dr A'', ''GP'') ''Flu'' ''legitimate'' ''output/legit_claim_0.pdf'' sample_design
       [[''Consult'', ''GP visit'', ''1'', ''800'', ''800'']]
       \<lparr>files = [''logos/logo_City Clinic.png'' \<mapsto> ImageFile ''old logo''], log = []\<rparr>))
     ''logos/logo_City Clinic.png'' = Some (ImageFile ''old logo'') \<and>
   filter is_logo_generation (log (snd (generate_claim_pdf sample_env sample_draws sample_clinic
       (''Dr A'', ''GP'') ''Flu'' ''legitimate'' ''output/legit_claim_0.pdf'' sample_design
       [[''Consult'', ''GP visit'', ''1'', ''800'', ''800'']]
       \<lparr>files = [''logos/logo_City Clinic.png'' \<mapsto> OtherBytes], log = []\<rparr>))) =
     [LogoGenerated ''City Clinic'' ''logos/logo_City Clinic.png''] \<and>
   files (snd (generate_claim_pdf sample_env sample_draws sample_clinic
       (''Dr A'', ''GP'') ''Flu'' ''legitimate'' ''output/legit_claim_0.pdf'' sample_design
       [[''Consult'', ''GP visit'', ''1'', ''800'', ''800'']]
       \<lparr>files = [''logos/logo_City Clinic.png'' \<mapsto> OtherBytes], log = []\<rparr>))
     ''logos/logo_City Clinic.png'' = Some (ImageFile ''City Clinic'')"
proof -
  let ?old = "\<lparr>files = [''logos/logo_City Clinic.png'' \<mapsto> ImageFile ''old logo''], log = []\<rparr>"
  let ?bad = "\<lparr>files = [''logos/logo_City Clinic.png'' \<mapsto> OtherBytes], log = []\<rparr>"
  let ?run = "generate_claim_pdf sample_env sample_draws sample_clinic
       (''Dr A'', ''GP'') ''Flu'' ''legitimate'' ''output/legit_claim_0.pdf'' sample_design
       [[''Consult'', ''GP visit'', ''1'', ''800'', ''800'']]"
  have other: "''output/legit_claim_0.pdf'' \<noteq> logo_path ''City Clinic''"
    by (simp add: sample_logo_path)
  have able: "pil_draws sample_env (take 20 ''City Clinic'') \<and>
      can_write sample_env (logo_path ''City Clinic'')"
    by (simp add: sample_env_simps)
  have old: "\<exists>t. files ?old (logo_path ''City Clinic'') = Some (ImageFile t)"
    by (simp add: sample_logo_path)
  have bad: "\<not> (\<exists>t. files ?bad (logo_path ''City Clinic'') = Some (ImageFile t))"
    by (simp add: sample_logo_path)
  from logo_reused_or_regenerated [where clinic = sample_clinic and name = "''City Clinic''"
      and w = ?old, OF sample_design_fields sample_clinic_name prod.collapse [of "?run ?old", symmetric]]
    old other
  have reuse: "filter is_logo_generation (log (snd (?run ?old))) = [] \<and>
      files (snd (?run ?old)) ''logos/logo_City Clinic.png'' = Some (ImageFile ''old logo'')"
    by (simp add: sample_logo_path)
  from logo_reused_or_regenerated [where clinic = sample_clinic and name = "''City Clinic''"
      and w = ?bad, OF sample_design_fields sample_clinic_name prod.collapse [of "?run ?bad", symmetric]]
    bad other able
  have regen: "filter is_logo_generation (log (snd (?run ?bad))) =
        [LogoGenerated ''City Clinic'' ''logos/logo_City Clinic.png''] \<and>
      files (snd (?run ?bad)) ''logos/logo_City Clinic.png'' = Some (ImageFile ''City Clinic'')"
    by (simp add: sample_logo_path)
  from reuse regen sample_design_fields sample_clinic_name show ?thesis
    by simp
qed

text \<open>
  Claim C9, as the code has it. The logo that \<open>generate_claim_pdf\<close> persists for a
  clinic is stored at \<open>logos/logo_\<close>, the name of the clinic as it is, \<open>.png\<close>: every
  image the call stores is at that path and shows the first 20 characters of the name,
  and a logo that is generated is found there. The name is not sanitized.
\<close>

theorem logo_stored_under_clinic_name:
  fixes env :: "'f pyenv"
  assumes "generate_claim_pdf env dr clinic doctor diagnosis fraud_type output_pdf design
             billing_items w = (r, w')"
  shows "(\<forall>name. logo_path name = ''logos/logo_'' @ name @ ''.png'') \<and>
         (\<forall>p t. files w' p = Some (ImageFile t) \<and> files w p \<noteq> Some (ImageFile t) \<longrightarrow>
            (\<exists>name. clinic ''name'' = Some name \<and> p = ''logos/logo_'' @ name @ ''.png'' \<and>
               t = take 20 name)) \<and>
         (\<forall>name. (\<exists>pc sc fn. design_fields design = Inr (pc, sc, fn)) \<and>
              clinic ''name'' = Some name \<and>
              \<not> (\<exists>t. files w (''logos/logo_'' @ name @ ''.png'') = Some (ImageFile t)) \<and>
              pil_draws env (take 20 name) \<and> can_write env (''logos/logo_'' @ name @ ''.png'') \<and>
              output_pdf \<noteq> ''logos/logo_'' @ name @ ''.png'' \<longrightarrow>
            files w' (''logos/logo_'' @ name @ ''.png'') = Some (ImageFile (take 20 name)))"
proof (intro conjI allI impI)
  fix name
  show "logo_path name = ''logos/logo_'' @ name @ ''.png''"
    by (rule logo_path_eq)
next
  fix p t
  assume "files w' p = Some (ImageFile t) \<and> files w p \<noteq> Some (ImageFile t)"
  with generate_claim_pdf_frame [of env dr clinic doctor diagnosis fraud_type output_pdf design
      billing_items w p] assms
  show "\<exists>name. clinic ''name'' = Some name \<and> p = ''logos/logo_'' @ name @ ''.png'' \<and>
               t = take 20 name"
    by (auto simp: logo_path_eq)
next
  fix name
  assume a: "(\<exists>pc sc fn. design_fields design = Inr (pc, sc, fn)) \<and>
              clinic ''name'' = Some name \<and>
              \<not> (\<exists>t. files w (''logos/logo_'' @ name @ ''.png'') = Some (ImageFile t)) \<and>
              pil_draws env (take 20 name) \<and> can_write env (''logos/logo_'' @ name @ ''.png'') \<and>
              output_pdf \<noteq> ''logos/logo_'' @ name @ ''.png''"
  then obtain pc sc fn where design: "design_fields design = Inr (pc, sc, fn)" by blast
  from a have name: "clinic ''name'' = Some name" by blast
  from a have bad: "\<not> (\<exists>t. files w (logo_path name) = Some (ImageFile t))"
    and able: "pil_draws env (take 20 name) \<and> can_write env (logo_path name)"
    and other: "output_pdf \<noteq> logo_path name"
    by (simp_all add: logo_path_eq)
  from logo_step_regenerate(2) [OF bad, of env] able
  have step: "files (snd (logo_step env name w)) (logo_path name) = Some (ImageFile (take 20 name))"
    by simp
  from generate_claim_pdf_world [where clinic = clinic and design = design and name = name
      and env = env and dr = dr and doctor = doctor and diagnosis = diagnosis
      and fraud_type = fraud_type and output_pdf = output_pdf and billing_items = billing_items
      and w = w, OF design name] assms other step
  have "files w' (logo_path name) = Some (ImageFile (take 20 name))"
    by auto
  then show "files w' (''logos/logo_'' @ name @ ''.png'') = Some (ImageFile (take 20 name))"
    by (simp add: logo_path_eq)
qed

theorem logo_stored_under_clinic_name_witness:
  "(\<exists>pc sc fn. design_fields sample_design = Inr (pc, sc, fn)) \<and>
   sample_clinic ''name'' = Some ''City Clinic'' \<and>
   files no_files ''logos/logo_City Clinic.png'' = None \<and>
   files (snd (generate_claim_pdf sample_env sample_draws sample_clinic (''Dr A'', ''GP'') ''Flu''
      ''legitimate'' ''output/legit_claim_0.pdf'' sample_design
      [[''Consult'', ''GP visit'', ''1'', ''800'', ''800'']] no_files))
     ''logos/logo_City Clinic.png'' = Some (ImageFile ''City Clinic'')"
proof -
  let ?run = "generate_claim_pdf sample_env sample_draws sample_clinic (''Dr A'', ''GP'') ''Flu''
      ''legitimate'' ''output/legit_claim_0.pdf'' sample_design
      [[''Consult'', ''GP visit'', ''1'', ''800'', ''800'']] no_files"
  have design: "\<exists>pc sc fn. design_fields sample_design = Inr (pc, sc, fn)"
    using sample_design_fields by blast
  have missing: "files no_files ''logos/logo_City Clinic.png'' = None"
    by (simp add: no_files_def)
  have able: "pil_draws sample_env (take 20 ''City Clinic'') \<and>
      can_write sample_env (''logos/logo_'' @ ''City Clinic'' @ ''.png'')"
    by (simp add: sample_env_simps)
  from logo_stored_under_clinic_name [OF prod.collapse [of ?run, symmetric]]
  have "(\<exists>pc sc fn. design_fields sample_design = Inr (pc, sc, fn)) \<and>
        sample_clinic ''name'' = Some ''City Clinic'' \<and>
        \<not> (\<exists>t. files no_files (''logos/logo_'' @ ''City Clinic'' @ ''.png'') = Some (ImageFile t)) \<and>
        pil_draws sample_env (take 20 ''City Clinic'') \<and>
        can_write sample_env (''logos/logo_'' @ ''City Clinic'' @ ''.png'') \<and>
        ''output/legit_claim_0.pdf'' \<noteq> ''logos/logo_'' @ ''City Clinic'' @ ''.png'' \<longrightarrow>
      files (snd ?run) (''logos/logo_'' @ ''City Clinic'' @ ''.png'') =
        Some (ImageFile (take 20 ''City Clinic''))"
    by blast
  with design sample_clinic_name missing able
  have "files (snd ?run) ''logos/logo_City Clinic.png'' = Some (ImageFile ''City Clinic'')"
    by simp
  with design sample_clinic_name missing show ?thesis by blast
qed

theorem logo_name_not_sanitized_counterexample:
  "logo_path ''A/B Clinic'' = ''logos/logo_A/B Clinic.png'' \<and>
   \<not> (\<exists>sanitize. (\<forall>name. CHR ''/'' \<notin> set (sanitize name)) \<and>
          (\<forall>name. logo_path name = os_path_join logos_dir (''logo_'' @ sanitize name @ ''.png'')))"
proof (intro conjI notI)
  show "logo_path ''A/B Clinic'' = ''logos/logo_A/B Clinic.png''"
    by (simp add: logo_path_eq)
next
  assume "\<exists>sanitize. (\<forall>name. CHR ''/'' \<notin> set (sanitize name)) \<and>
          (\<forall>name. logo_path name = os_path_join logos_dir (''logo_'' @ sanitize name @ ''.png''))"
  then obtain sanitize where clean: "CHR ''/'' \<notin> set (sanitize ''A/B Clinic'')"
    and path: "logo_path ''A/B Clinic'' =
      os_path_join logos_dir (''logo_'' @ sanitize ''A/B Clinic'' @ ''.png'')"
    by blast
  from path have "''logos/logo_'' @ ''A/B Clinic'' @ ''.png'' =
      ''logos/logo_'' @ sanitize ''A/B Clinic'' @ ''.png''"
    by (simp add: logo_path_eq os_path_join_def logos_dir_def)
  then have "sanitize ''A/B Clinic'' = ''A/B Clinic''"
    by simp
  with clean show False by simp
qed

text \<open>
  Claim C5. When the design file exists and holds a design store, every call of
  \<open>load_or_create_designs\<close> returns that store as it is and leaves the files alone,
  whatever the list of clinics and the random draws are. When the file does not exist
  (and every clinic has a name and the file can be written), the store that is returned
  has one style for each clinic name, each taken from the three palettes, and that store
  is what the design file then holds. In both cases, once a call has returned a store,
  every later call returns the same store: the load is idempotent.
\<close>

theorem load_or_create_designs_idempotent:
  fixes env :: "'f pyenv"
  shows
    "(files w design_file = Some (DesignJson stored) \<longrightarrow>
        (\<forall>(env' :: 'f pyenv) rnd' clinics'.
           load_or_create_designs env' rnd' clinics' w = (Inr stored, w))) \<and>
     (files w design_file = None \<and> list_all (\<lambda>clinic. clinic ''name'' \<noteq> None) clinics_info \<and>
      can_write env design_file \<longrightarrow>
        (\<exists>created.
           load_or_create_designs env rnd clinics_info w =
             (Inr created, write_file design_file (DesignJson created) w) \<and>
           dom created = {n. \<exists>clinic \<in> set clinics_info. clinic ''name'' = Some n} \<and>
           (\<forall>n st. created n = Some st \<longrightarrow> palette_style st))) \<and>
     (\<forall>designs w1. load_or_create_designs env rnd clinics_info w = (Inr designs, w1) \<longrightarrow>
        (\<forall>(env' :: 'f pyenv) rnd' clinics'.
           load_or_create_designs env' rnd' clinics' w1 = (Inr designs, w1)))"
proof (intro conjI impI allI)
  fix env' :: "'f pyenv" and rnd' clinics'
  assume "files w design_file = Some (DesignJson stored)"
  then show "load_or_create_designs env' rnd' clinics' w = (Inr stored, w)"
    by (simp add: load_or_create_designs_def)
next
  assume a: "files w design_file = None \<and>
      list_all (\<lambda>clinic. clinic ''name'' \<noteq> None) clinics_info \<and> can_write env design_file"
  from create_designs_result [of clinics_info Map.empty rnd 0] a
  obtain created where created: "create_designs rnd 0 clinics_info Map.empty = Inr created"
    "dom created = {n. \<exists>clinic \<in> set clinics_info. clinic ''name'' = Some n}"
    "\<forall>n st. created n = Some st \<longrightarrow> palette_style st"
    by auto
  from a created(1) have "load_or_create_designs env rnd clinics_info w =
             (Inr created, write_file design_file (DesignJson created) w)"
    by (simp add: load_or_create_designs_def)
  with created(2,3) show "\<exists>created.
           load_or_create_designs env rnd clinics_info w =
             (Inr created, write_file design_file (DesignJson created) w) \<and>
           dom created = {n. \<exists>clinic \<in> set clinics_info. clinic ''name'' = Some n} \<and>
           (\<forall>n st. created n = Some st \<longrightarrow> palette_style st)"
    by blast
next
  fix designs w1 and env' :: "'f pyenv" and rnd' clinics'
  assume first: "load_or_create_designs env rnd clinics_info w = (Inr designs, w1)"
  have "files w1 design_file = Some (DesignJson designs)"
  proof (cases "files w design_file")
    case None
    with first show ?thesis
      by (auto simp: load_or_create_designs_def split: sum.splits if_splits)
  next
    case (Some content)
    with first show ?thesis
      by (cases content) (auto simp: load_or_create_designs_def)
  qed
  then show "load_or_create_designs env' rnd' clinics' w1 = (Inr designs, w1)"
    by (simp add: load_or_create_designs_def)
qed

theorem load_or_create_designs_idempotent_witness:
  "files no_files design_file = None \<and>
   list_all (\<lambda>clinic. clinic ''name'' \<noteq> None) [sample_clinic] \<and>
   can_write sample_env design_file \<and>
   (\<exists>created.
      load_or_create_designs sample_env (\<lambda>k. 0) [sample_clinic] no_files =
        (Inr created, write_file design_file (DesignJson created) no_files) \<and>
      dom created = {''City Clinic''} \<and>
      load_or_create_designs sample_env (\<lambda>k. 7) []
          (write_file design_file (DesignJson created) no_files) =
        (Inr created, write_file design_file (DesignJson created) no_files))"
proof -
  have missing: "files no_files design_file = None"
    by (simp add: no_files_def)
  have named: "list_all (\<lambda>clinic. clinic ''name'' \<noteq> None) [sample_clinic]"
    by (simp add: sample_clinic_name)
  have writable: "can_write sample_env design_file"
    by (simp add: sample_env_simps)
  note idem = load_or_create_designs_idempotent [where w = no_files and env = sample_env
      and clinics_info = "[sample_clinic]" and rnd = "\<lambda>k. 0"]
  from missing named writable
  have "files no_files design_file = None \<and>
      list_all (\<lambda>clinic. clinic ''name'' \<noteq> None) [sample_clinic] \<and>
      can_write sample_env design_file"
    by simp
  from idem [THEN conjunct2, THEN conjunct1, THEN mp, OF this] obtain created where
    created: "load_or_create_designs sample_env (\<lambda>k. 0) [sample_clinic] no_files =
        (Inr created, write_file design_file (DesignJson created) no_files)" and
    doms: "dom created = {n. \<exists>clinic \<in> set [sample_clinic]. clinic ''name'' = Some n}"
    by (elim exE conjE)
  from doms have names: "dom created = {''City Clinic''}"
    by (simp add: sample_clinic_name)
  have again: "load_or_create_designs sample_env (\<lambda>k. 7) []
          (write_file design_file (DesignJson created) no_files) =
        (Inr created, write_file design_file (DesignJson created) no_files)"
    by (rule idem [THEN conjunct2, THEN conjunct2, rule_format, OF created])
  have "\<exists>created.
      load_or_create_designs sample_env (\<lambda>k. 0) [sample_clinic] no_files =
        (Inr created, write_file design_file (DesignJson created) no_files) \<and>
      dom created = {''City Clinic''} \<and>
      load_or_create_designs sample_env (\<lambda>k. 7) []
          (write_file design_file (DesignJson created) no_files) =
        (Inr created, write_file design_file (DesignJson created) no_files)"
  proof (intro exI [of _ created] conjI)
    show "load_or_create_designs sample_env (\<lambda>k. 0) [sample_clinic] no_files =
        (Inr created, write_file design_file (DesignJson created) no_files)"
      by (rule created)
    show "dom created = {''City Clinic''}"
      by (rule names)
    show "load_or_create_designs sample_env (\<lambda>k. 7) []
          (write_file design_file (DesignJson created) no_files) =
        (Inr created, write_file design_file (DesignJson created) no_files)"
      by (rule again)
  qed
  with missing named writable show ?thesis by (intro conjI)
qed






text \<open>
  Claim C8, as the code has it. The clinic scraper saves as the claim says: without
  records \<open>save_to_csv\<close> only logs a warning and leaves the files alone, and with
  records it writes the file once, the header being the keys of the first record and
  each record one row (when the file can be written and no record has a key the first
  one lacks). The doctor scraper does not: \<open>save_doctors_to_csv\<close> writes the fixed header
  \<open>Doctor Name\<close>, \<open>Specialty\<close> and then the rows it is given, for every list of rows; with
  no rows the file is written all the same, holding the header alone, and no warning is
  logged.
\<close>

theorem scrapers_save_their_records:
  fixes env :: "'f pyenv"
  shows
    "save_to_csv env [] w = log_event NoHospitalDetails w \<and>
     files (save_to_csv env [] w) = files w \<and>
     (\<forall>first others.
        can_write env clinics_csv \<and>
        list_all (\<lambda>detail. set (map fst detail) \<subseteq> set (map fst first)) (first # others) \<longrightarrow>
        save_to_csv env (first # others) w =
          log_event HospitalsSaved
            (write_file clinics_csv
               (Csv (map fst first)
                  (map (\<lambda>detail. map (\<lambda>key. case map_of detail key of
                               None \<Rightarrow> []
                             | Some None \<Rightarrow> []
                             | Some (Some v) \<Rightarrow> v) (map fst first)) (first # others))) w)) \<and>
     (\<forall>doctor_data filename.
        can_write env filename \<longrightarrow>
        save_doctors_to_csv env doctor_data filename w =
          (Inr (),
           log_event (DoctorsSaved filename)
             (write_file filename (Csv [''Doctor Name'', ''Specialty''] doctor_data)
                (log_event (SavingDoctors (length doctor_data)) w))))"
proof (intro conjI allI impI)
  show "save_to_csv env [] w = log_event NoHospitalDetails w"
    by (simp add: save_to_csv_def)
  then show "files (save_to_csv env [] w) = files w"
    by simp
next
  fix first :: detail and others :: "detail list"
  assume a: "can_write env clinics_csv \<and>
        list_all (\<lambda>detail. set (map fst detail) \<subseteq> set (map fst first)) (first # others)"
  then have "write_rows (map fst first) (first # others) [] =
      ([] @ map (\<lambda>detail. map (\<lambda>key. case map_of detail key of
                               None \<Rightarrow> []
                             | Some None \<Rightarrow> []
                             | Some (Some v) \<Rightarrow> v) (map fst first)) (first # others), None)"
    by (intro write_rows_all) simp
  with a show "save_to_csv env (first # others) w =
          log_event HospitalsSaved
            (write_file clinics_csv
               (Csv (map fst first)
                  (map (\<lambda>detail. map (\<lambda>key. case map_of detail key of
                               None \<Rightarrow> []
                             | Some None \<Rightarrow> []
                             | Some (Some v) \<Rightarrow> v) (map fst first)) (first # others))) w)"
    by (simp add: save_to_csv_def Let_def del: write_rows.simps)
next
  fix doctor_data filename
  assume "can_write env filename"
  then show "save_doctors_to_csv env doctor_data filename w =
          (Inr (),
           log_event (DoctorsSaved filename)
             (write_file filename (Csv [''Doctor Name'', ''Specialty''] doctor_data)
                (log_event (SavingDoctors (length doctor_data)) w)))"
    by (simp add: save_doctors_to_csv_def Let_def)
qed

theorem scrapers_save_their_records_witness:
  "can_write sample_env clinics_csv \<and>
   list_all (\<lambda>detail. set (map fst detail) \<subseteq> set (map fst sample_detail))
     [sample_detail, [(''name'', Some ''Town Hospital'')]] \<and>
   files (save_to_csv sample_env [sample_detail, [(''name'', Some ''Town Hospital'')]] no_files)
     clinics_csv =
     Some (Csv [''name'', ''field'', ''telephone'', ''address'', ''location'']
            [[''City Clinic'', ''Clinic'', [], ''1 Main St'', []],
             [''Town Hospital'', [], [], [], []]]) \<and>
   can_write sample_env doctors_csv \<and>
   files (snd (save_doctors_to_csv sample_env [[''Dr A'', ''GP'']] doctors_csv no_files))
     doctors_csv =
     Some (Csv [''Doctor Name'', ''Specialty''] [[''Dr A'', ''GP'']])"
proof -
  have writable: "can_write sample_env clinics_csv" "can_write sample_env doctors_csv"
    by (simp_all add: sample_env_simps)
  have keys: "list_all (\<lambda>detail. set (map fst detail) \<subseteq> set (map fst sample_detail))
     [sample_detail, [(''name'', Some ''Town Hospital'')]]"
    by (simp add: sample_detail_def)
  note saved = scrapers_save_their_records [where env = sample_env and w = no_files]
  from saved [THEN conjunct2, THEN conjunct2, THEN conjunct1, rule_format,
      of sample_detail "[[(''name'', Some ''Town Hospital'')]]"] writable(1) keys
  have "save_to_csv sample_env [sample_detail, [(''name'', Some ''Town Hospital'')]] no_files =
      log_event HospitalsSaved
            (write_file clinics_csv
               (Csv (map fst sample_detail)
                  (map (\<lambda>detail. map (\<lambda>key. case map_of detail key of
                               None \<Rightarrow> []
                             | Some None \<Rightarrow> []
                             | Some (Some v) \<Rightarrow> v) (map fst sample_detail))
                     [sample_detail, [(''name'', Some ''Town Hospital'')]])) no_files)"
    by simp
  then have clinics: "files (save_to_csv sample_env
        [sample_detail, [(''name'', Some ''Town Hospital'')]] no_files) clinics_csv =
     Some (Csv [''name'', ''field'', ''telephone'', ''address'', ''location'']
            [[''City Clinic'', ''Clinic'', [], ''1 Main St'', []],
             [''Town Hospital'', [], [], [], []]])"
    by (simp add: sample_detail_def)
  from saved [THEN conjunct2, THEN conjunct2, THEN conjunct2, rule_format,
      of doctors_csv "[[''Dr A'', ''GP'']]"] writable(2)
  have doctors: "files (snd (save_doctors_to_csv sample_env [[''Dr A'', ''GP'']] doctors_csv
      no_files)) doctors_csv = Some (Csv [''Doctor Name'', ''Specialty''] [[''Dr A'', ''GP'']])"
    by simp
  from writable keys clinics doctors show ?thesis by (intro conjI)
qed

theorem doctors_file_written_without_records_counterexample:
  "files (snd (save_doctors_to_csv sample_env [] doctors_csv no_files)) doctors_csv =
     Some (Csv [''Doctor Name'', ''Specialty''] []) \<and>
   log (snd (save_doctors_to_csv sample_env [] doctors_csv no_files)) =
     [SavingDoctors 0, DoctorsSaved doctors_csv] \<and>
   files no_files doctors_csv = None"
  by (simp add: save_doctors_to_csv_def Let_def sample_env_simps no_files_def)

text \<open>
  Claim C4. Take the futures the two selection loops have submitted, with or without an
  exception ending them. For each kind there are at most as many tasks as slots were
  requested, and every task has a doctor whose specialty is a key of the specialty
  table. For a slot whose chosen doctor has a specialty that is not a key of the table,
  no task has the destination of that slot, and whatever tasks of the batch run, in
  whatever order and with whatever libraries, the destination of that slot holds after
  the run what it held before: no file is produced for it.
\<close>

theorem skipped_slot_produces_no_claim:
  assumes "submit_batch rnd clinics doctors sd designs billing n_legit n_fraud = (futures, err)"
  shows
    "length (filter (\<lambda>t. task_kind t = ''legitimate'') futures) \<le> n_legit \<and>
     length (filter (\<lambda>t. task_kind t = ''fraudulent'') futures) \<le> n_fraud \<and>
     (\<forall>t \<in> set futures. map_of sd (snd (task_doctor t)) \<noteq> None) \<and>
     (\<forall>i doctor.
        random_choice doctors (fst (snd (rnd ''legitimate'' i))) = Inr doctor \<and>
        map_of sd (snd doctor) = None \<longrightarrow>
          (\<forall>t \<in> set futures. task_output t \<noteq> claim_path ''legit_claim_'' i) \<and>
          (\<forall>(env :: 'f pyenv) fake k ts w. set ts \<subseteq> set futures \<longrightarrow>
             files (run_tasks env fake k ts w) (claim_path ''legit_claim_'' i) =
               files w (claim_path ''legit_claim_'' i))) \<and>
     (\<forall>i doctor.
        random_choice doctors (fst (snd (rnd ''fraudulent'' i))) = Inr doctor \<and>
        map_of sd (snd doctor) = None \<longrightarrow>
          (\<forall>t \<in> set futures. task_output t \<noteq> claim_path ''fraud_claim_'' i) \<and>
          (\<forall>(env :: 'f pyenv) fake k ts w. set ts \<subseteq> set futures \<longrightarrow>
             files (run_tasks env fake k ts w) (claim_path ''fraud_claim_'' i) =
               files w (claim_path ''fraud_claim_'' i)))"
proof -
  let ?legit = "claim_slot ''legit_claim_'' ''legitimate'' (rnd ''legitimate'') clinics doctors sd
                designs billing"
  let ?fraud = "claim_slot ''fraud_claim_'' ''fraudulent'' (rnd ''fraudulent'') clinics doctors sd
                designs billing"
  from submit_batch_tasks [OF assms] obtain legit fraud where
    futures: "futures = legit @ fraud" and
    counts: "length legit \<le> n_legit" "length fraud \<le> n_fraud" and
    legit: "\<And>t. t \<in> set legit \<Longrightarrow> \<exists>i < n_legit. ?legit i = Inr (Some t)" and
    fraud: "\<And>t. t \<in> set fraud \<Longrightarrow> \<exists>i < n_fraud. ?fraud i = Inr (Some t)"
    by blast
  have legit_task: "\<exists>j. ?legit j = Inr (Some t) \<and> task_output t = claim_path ''legit_claim_'' j \<and>
      task_kind t = ''legitimate'' \<and> map_of sd (snd (task_doctor t)) \<noteq> None"
    if "t \<in> set legit" for t
  proof -
    from legit [OF that] obtain j where j: "?legit j = Inr (Some t)" by blast
    from claim_slot_task [OF j] j show ?thesis by auto
  qed
  have fraud_task: "\<exists>j. ?fraud j = Inr (Some t) \<and> task_output t = claim_path ''fraud_claim_'' j \<and>
      task_kind t = ''fraudulent'' \<and> map_of sd (snd (task_doctor t)) \<noteq> None"
    if "t \<in> set fraud" for t
  proof -
    from fraud [OF that] obtain j where j: "?fraud j = Inr (Some t)" by blast
    from claim_slot_task [OF j] j show ?thesis by auto
  qed
  have fraud_kind: "task_kind t = ''fraudulent''" if "t \<in> set fraud" for t
    using fraud_task [OF that] by blast
  have legit_kind: "task_kind t = ''legitimate''" if "t \<in> set legit" for t
    using legit_task [OF that] by blast
  have "filter (\<lambda>t. task_kind t = ''legitimate'') fraud = []"
    by (auto simp: filter_empty_conv fraud_kind)
  then have count_legit: "length (filter (\<lambda>t. task_kind t = ''legitimate'') futures) \<le> n_legit"
    by (simp add: futures) (rule order_trans [OF length_filter_le counts(1)])
  have "filter (\<lambda>t. task_kind t = ''fraudulent'') legit = []"
    by (auto simp: filter_empty_conv legit_kind)
  then have count_fraud: "length (filter (\<lambda>t. task_kind t = ''fraudulent'') futures) \<le> n_fraud"
    by (simp add: futures) (rule order_trans [OF length_filter_le counts(2)])
  have listed: "\<forall>t \<in> set futures. map_of sd (snd (task_doctor t)) \<noteq> None"
    using legit_task fraud_task by (auto simp: futures)
  have no_legit: "task_output t \<noteq> claim_path ''legit_claim_'' i"
    if skip: "random_choice doctors (fst (snd (rnd ''legitimate'' i))) = Inr doctor"
      "map_of sd (snd doctor) = None" and t: "t \<in> set futures" for i doctor t
  proof (cases "t \<in> set legit")
    case True
    from legit_task [OF True] obtain j where j: "?legit j = Inr (Some t)"
      "task_output t = claim_path ''legit_claim_'' j" by blast
    from claim_slot_skipped [where rnd = "rnd ''legitimate''" and i = i, OF skip]
    have "?legit i \<noteq> Inr (Some t)" .
    with j(1) have "j \<noteq> i" by auto
    with j(2) show ?thesis by (simp add: claim_path_inj)
  next
    case False
    with t futures have "t \<in> set fraud" by simp
    from fraud_task [OF this] obtain j where "task_output t = claim_path ''fraud_claim_'' j"
      by blast
    then show ?thesis by (simp add: legit_fraud_paths_differ)
  qed
  have no_fraud: "task_output t \<noteq> claim_path ''fraud_claim_'' i"
    if skip: "random_choice doctors (fst (snd (rnd ''fraudulent'' i))) = Inr doctor"
      "map_of sd (snd doctor) = None" and t: "t \<in> set futures" for i doctor t
  proof (cases "t \<in> set fraud")
    case True
    from fraud_task [OF True] obtain j where j: "?fraud j = Inr (Some t)"
      "task_output t = claim_path ''fraud_claim_'' j" by blast
    from claim_slot_skipped [where rnd = "rnd ''fraudulent''" and i = i, OF skip]
    have "?fraud i \<noteq> Inr (Some t)" .
    with j(1) have "j \<noteq> i" by auto
    with j(2) show ?thesis by (simp add: claim_path_inj)
  next
    case False
    with t futures have "t \<in> set legit" by simp
    from legit_task [OF this] obtain j where "task_output t = claim_path ''legit_claim_'' j"
      by blast
    then show ?thesis by (simp add: legit_fraud_paths_differ)
  qed
  have untouched: "files (run_tasks env' fake k ts w) p = files w p"
    if "\<forall>t \<in> set futures. task_output t \<noteq> p" "set ts \<subseteq> set futures"
      "\<forall>name. p \<noteq> logo_path name"
    for env' :: "'f pyenv" and fake k ts w p
    using that by (intro run_tasks_frame) auto
  show ?thesis
  proof (intro conjI allI impI ballI)
    show "length (filter (\<lambda>t. task_kind t = ''legitimate'') futures) \<le> n_legit"
      by (rule count_legit)
    show "length (filter (\<lambda>t. task_kind t = ''fraudulent'') futures) \<le> n_fraud"
      by (rule count_fraud)
  next
    fix t assume "t \<in> set futures"
    with listed show "map_of sd (snd (task_doctor t)) \<noteq> None" by blast
  next
    fix i doctor t
    assume "random_choice doctors (fst (snd (rnd ''legitimate'' i))) = Inr doctor \<and>
        map_of sd (snd doctor) = None" and "t \<in> set futures"
    then show "task_output t \<noteq> claim_path ''legit_claim_'' i"
      using no_legit by blast
  next
    fix i doctor fake k ts w and env' :: "'f pyenv"
    assume skip: "random_choice doctors (fst (snd (rnd ''legitimate'' i))) = Inr doctor \<and>
        map_of sd (snd doctor) = None" and ts: "set ts \<subseteq> set futures"
    from skip have "\<forall>t \<in> set futures. task_output t \<noteq> claim_path ''legit_claim_'' i"
      using no_legit by blast
    then show "files (run_tasks env' fake k ts w) (claim_path ''legit_claim_'' i) =
               files w (claim_path ''legit_claim_'' i)"
      using ts by (intro untouched) (simp_all add: claim_path_not_logo)
  next
    fix i doctor t
    assume "random_choice doctors (fst (snd (rnd ''fraudulent'' i))) = Inr doctor \<and>
        map_of sd (snd doctor) = None" and "t \<in> set futures"
    then show "task_output t \<noteq> claim_path ''fraud_claim_'' i"
      using no_fraud by blast
  next
    fix i doctor fake k ts w and env' :: "'f pyenv"
    assume skip: "random_choice doctors (fst (snd (rnd ''fraudulent'' i))) = Inr doctor \<and>
        map_of sd (snd doctor) = None" and ts: "set ts \<subseteq> set futures"
    from skip have "\<forall>t \<in> set futures. task_output t \<noteq> claim_path ''fraud_claim_'' i"
      using no_fraud by blast
    then show "files (run_tasks env' fake k ts w) (claim_path ''fraud_claim_'' i) =
               files w (claim_path ''fraud_claim_'' i)"
      using ts by (intro untouched) (simp_all add: claim_path_not_logo)
  qed
qed

theorem skipped_slot_produces_no_claim_witness:
  "random_choice sample_doctors (fst (snd (sample_rnd ''legitimate'' 1))) =
     Inr (''Dr B'', ''Surgeon'') \<and>
   map_of sample_specialties (snd (''Dr B'', ''Surgeon'')) = None \<and>
   length (filter (\<lambda>t. task_kind t = ''legitimate'')
     (fst (submit_batch sample_rnd [sample_clinic] sample_doctors sample_specialties
        sample_designs sample_billing 2 1))) \<le> 2 \<and>
   files (run_tasks sample_env (\<lambda>k. sample_draws) 0
            (fst (submit_batch sample_rnd [sample_clinic] sample_doctors sample_specialties
               sample_designs sample_billing 2 1)) no_files)
     (claim_path ''legit_claim_'' 1) = None \<and>
   map task_output
     (fst (submit_batch sample_rnd [sample_clinic] sample_doctors sample_specialties
        sample_designs sample_billing 2 1)) =
     [claim_path ''legit_claim_'' 0, claim_path ''fraud_claim_'' 0]"
proof -
  let ?batch = "submit_batch sample_rnd [sample_clinic] sample_doctors sample_specialties
        sample_designs sample_billing 2 1"
  note batch = skipped_slot_produces_no_claim [where rnd = sample_rnd and doctors = sample_doctors
      and sd = sample_specialties, OF prod.collapse [of ?batch, symmetric]]
  have count: "length (filter (\<lambda>t. task_kind t = ''legitimate'') (fst ?batch)) \<le> 2"
    by (rule batch [THEN conjunct1])
  have skip: "random_choice sample_doctors (fst (snd (sample_rnd ''legitimate'' 1))) =
        Inr (''Dr B'', ''Surgeon'') \<and>
      map_of sample_specialties (snd (''Dr B'', ''Surgeon'')) = None"
    by (rule conjI) (rule sample_skipped_doctor)+
  from batch [THEN conjunct2, THEN conjunct2, THEN conjunct2, THEN conjunct1, rule_format,
      OF skip, THEN conjunct2, rule_format, of "fst ?batch" sample_env "\<lambda>k. sample_draws" 0 no_files]
  have "files (run_tasks sample_env (\<lambda>k. sample_draws) 0 (fst ?batch) no_files)
     (claim_path ''legit_claim_'' 1) = files no_files (claim_path ''legit_claim_'' 1)"
    by simp
  then have untouched: "files (run_tasks sample_env (\<lambda>k. sample_draws) 0 (fst ?batch) no_files)
     (claim_path ''legit_claim_'' 1) = None"
    by (simp add: no_files_def)
  from skip have chosen: "random_choice sample_doctors (fst (snd (sample_rnd ''legitimate'' 1))) =
        Inr (''Dr B'', ''Surgeon'')"
    and absent: "map_of sample_specialties (snd (''Dr B'', ''Surgeon'')) = None"
    by (rule conjunct1, rule conjunct2)
  from chosen absent count untouched sample_batch_outputs show ?thesis
    by (intro conjI)
qed

end
